theory Spec2Isabelle
  imports Complex_Main
begin

section \<open>The outbound HTTP client of the API gateway\<close>

text \<open>
  A shallow embedding of \<^verbatim>\<open>apps/api-gateway/src/common/http-client/http-client.service.ts\<close>
  (class \<^verbatim>\<open>HttpClient\<close>). \<^verbatim>\<open>undefined\<close> is \<open>None\<close>; a rejected promise is the left
  summand of a sum, a fulfilled one the right summand. What the class takes from its
  libraries (axios, axios-retry, opossum, the URL parser, \<^verbatim>\<open>Number\<close>,
  \<^verbatim>\<open>Math.random\<close>) is passed to the functions as arguments. The numbers that the
  class only stores and hands on (timeouts, thresholds, the retry count) are reals; the
  arithmetic of the retry delay is done in IEEE 754 doubles, as JavaScript does it.
\<close>

subsection \<open>Data\<close>

datatype HttpMethod = GET | POST | PUT | PATCH | DELETE

type_synonym header_list = "(string \<times> string) list"

text \<open>\<^verbatim>\<open>HttpResponse<T>\<close>: the triple built by \<^verbatim>\<open>doAxios\<close>.\<close>

record 'a HttpResponse =
  status :: int
  data :: 'a
  headers :: header_list

text \<open>What axios hands back for one exchange, and the error it throws.\<close>

record 'a AxiosResponse =
  res_status :: int
  res_data :: 'a
  res_headers :: header_list
  res_statusText :: string

record 'a AxiosError =
  code :: "string option"
  response :: "'a AxiosResponse option"
  message :: string
  request_method :: HttpMethod

text \<open>
  \<^verbatim>\<open>HttpClientOptions\<close> and \<^verbatim>\<open>Required<HttpClientOptions>\<close> have one shape; the
  caller's version holds optional fields (\<open>real option\<close>, \<open>bool option\<close>), the merged
  version holds plain values.
\<close>

record 'n RetryOptions =
  retries :: 'n
  baseDelayMs :: 'n
  maxDelayMs :: 'n

record ('n, 'b) BreakerOptions =
  enabled :: 'b
  timeoutMs :: 'n
  errorThresholdPercentage :: 'n
  resetTimeoutMs :: 'n
  rollingCountTimeoutMs :: 'n
  rollingCountBuckets :: 'n

record ('n, 'r, 'k) Options =
  timeoutMs :: 'n
  retry :: 'r
  breaker :: 'k

type_synonym HttpClientOptions =
  "(real option, real option RetryOptions option,
    (real option, bool option) BreakerOptions option) Options"

type_synonym RequiredOptions =
  "(real, real RetryOptions, (real, bool) BreakerOptions) Options"

type_synonym env = "string \<rightharpoonup> string"

subsection \<open>JavaScript numbers\<close>

text \<open>
  A JavaScript number: not-a-number, an infinity, or a finite double. Negative zero is
  not told apart from zero.
\<close>

datatype number = NaN | PosInf | NegInf | Fin real

text \<open>Rounding to the nearest integer, a tie going to the even one.\<close>

definition round_half_even :: "real \<Rightarrow> int" where
  "round_half_even q =
     (let f = \<lfloor>q\<rfloor>; d = q - real_of_int f
      in if d < 1 / 2 then f else if 1 / 2 < d then f + 1 else if even f then f else f + 1)"

text \<open>
  The exponent of the last place of the doubles around \<open>x\<close>: a double has 53
  significant bits, and the smallest exponent of a last place is -1074.
\<close>

definition ulp_exponent :: "real \<Rightarrow> int" where
  "ulp_exponent x = max (\<lfloor>log 2 \<bar>x\<bar>\<rfloor> - 52) (- 1074)"

text \<open>
  The result of an arithmetic operation whose exact value is \<open>x\<close>: the nearest
  double, ties to even, and an infinity from \<open>2 ^ 1024\<close> on.
\<close>

definition to_double :: "real \<Rightarrow> number" where
  "to_double x =
     (if x = 0 then Fin 0
      else let e = ulp_exponent x;
               y = real_of_int (round_half_even (x / 2 powi e)) * 2 powi e
           in if 2 ^ 1024 \<le> \<bar>y\<bar> then (if 0 < y then PosInf else NegInf) else Fin y)"

text \<open>A real that is a double: rounding leaves it as it is.\<close>

definition double :: "real \<Rightarrow> bool" where
  "double x = (to_double x = Fin x)"

text \<open>\<^verbatim>\<open>a * b\<close>.\<close>

fun js_times :: "number \<Rightarrow> number \<Rightarrow> number" where
  "js_times NaN b = NaN"
| "js_times a NaN = NaN"
| "js_times (Fin x) (Fin y) = to_double (x * y)"
| "js_times (Fin x) PosInf = (if x = 0 then NaN else if 0 < x then PosInf else NegInf)"
| "js_times (Fin x) NegInf = (if x = 0 then NaN else if 0 < x then NegInf else PosInf)"
| "js_times PosInf (Fin y) = (if y = 0 then NaN else if 0 < y then PosInf else NegInf)"
| "js_times NegInf (Fin y) = (if y = 0 then NaN else if 0 < y then NegInf else PosInf)"
| "js_times PosInf PosInf = PosInf"
| "js_times PosInf NegInf = NegInf"
| "js_times NegInf PosInf = NegInf"
| "js_times NegInf NegInf = PosInf"

text \<open>\<^verbatim>\<open>a + b\<close>.\<close>

fun js_plus :: "number \<Rightarrow> number \<Rightarrow> number" where
  "js_plus NaN b = NaN"
| "js_plus a NaN = NaN"
| "js_plus (Fin x) (Fin y) = to_double (x + y)"
| "js_plus PosInf NegInf = NaN"
| "js_plus NegInf PosInf = NaN"
| "js_plus PosInf b = PosInf"
| "js_plus a PosInf = PosInf"
| "js_plus NegInf b = NegInf"
| "js_plus a NegInf = NegInf"

text \<open>\<^verbatim>\<open>Math.min(a, b)\<close> and \<^verbatim>\<open>Math.floor(a)\<close>.\<close>

fun Math_min :: "number \<Rightarrow> number \<Rightarrow> number" where
  "Math_min NaN b = NaN"
| "Math_min a NaN = NaN"
| "Math_min NegInf b = NegInf"
| "Math_min a NegInf = NegInf"
| "Math_min PosInf b = b"
| "Math_min a PosInf = a"
| "Math_min (Fin x) (Fin y) = Fin (min x y)"

fun Math_floor :: "number \<Rightarrow> number" where
  "Math_floor (Fin x) = Fin (real_of_int \<lfloor>x\<rfloor>)"
| "Math_floor a = a"

text \<open>
  \<^verbatim>\<open>2 ** k\<close> for a whole \<open>k\<close>: a power of two is a double up to the exponent 1023,
  infinity above, and zero below the smallest double.
\<close>

definition two_to_the :: "int \<Rightarrow> number" where
  "two_to_the k = (if 1024 \<le> k then PosInf else if k < - 1074 then Fin 0 else Fin (2 powi k))"

text \<open>\<^verbatim>\<open>a <= b\<close>.\<close>

fun js_le :: "number \<Rightarrow> number \<Rightarrow> bool" where
  "js_le NaN b = False"
| "js_le a NaN = False"
| "js_le NegInf b = True"
| "js_le a PosInf = True"
| "js_le PosInf b = False"
| "js_le a NegInf = False"
| "js_le (Fin x) (Fin y) = (x \<le> y)"

subsection \<open>Retry policy\<close>

text \<open>
  \<^verbatim>\<open>error?.response?.status\<close>: the status of the response the error carries, if it
  carries one.
\<close>

definition error_status :: "'a AxiosError \<Rightarrow> int option" where
  "error_status error = map_option res_status (response error)"

text \<open>
  \<^verbatim>\<open>[429, 502, 503, 504].includes(status)\<close>; an \<^verbatim>\<open>undefined\<close> status is in no
  array of numbers.
\<close>

definition array_includes :: "int list \<Rightarrow> int option \<Rightarrow> bool" where
  "array_includes xs v = (case v of None \<Rightarrow> False | Some s \<Rightarrow> s \<in> set xs)"

text \<open>
  \<^verbatim>\<open>shouldRetry\<close> (lines 241-250). Its first test is the axios-retry predicate
  \<^verbatim>\<open>isNetworkOrIdempotentRequestError\<close>, here the argument \<open>isNetworkOrIdempotent\<close>.
\<close>

definition shouldRetry :: "('a AxiosError \<Rightarrow> bool) \<Rightarrow> 'a AxiosError \<Rightarrow> bool" where
  "shouldRetry isNetworkOrIdempotent error =
     (if isNetworkOrIdempotent error then True
      else if array_includes [429, 502, 503, 504] (error_status error) then True
      else False)"

text \<open>
  Modelled from the spec: the axios-retry predicate \<^verbatim>\<open>isNetworkOrIdempotentRequestError\<close>
  is library code that is not part of the sources. The spec (4.2) describes the failures
  it accepts as "a connectivity/timeout error", and (3) sets these apart from "a response
  whose status is itself failure-like": the failure carries no response. The theorems
  below hold for every predicate; this one is the instance they are exercised with.
\<close>

definition connectivity_or_timeout :: "'a AxiosError \<Rightarrow> bool" where
  "connectivity_or_timeout error = (response error = None)"

text \<open>
  The \<^verbatim>\<open>retryDelay\<close> callback (lines 58-69) of the instance whose constructor read
  \<open>cfg\<close> (lines 51-53). \<open>u\<close> is the double that \<^verbatim>\<open>Math.random()\<close> returns in this
  call. The log line is left out.
\<close>

definition retryDelay :: "number RetryOptions \<Rightarrow> nat \<Rightarrow> real \<Rightarrow> number" where
  "retryDelay cfg retryCount u =
     (let expo = Math_min (maxDelayMs cfg)
                   (js_times (baseDelayMs cfg) (two_to_the (int retryCount - 1)));
          jitter = Math_floor (js_times (Fin u) (Fin 100));
          delay = js_plus expo jitter
      in delay)"

text \<open>
  A configuration of finite values, as the callback sees it. (The values that
  \<^verbatim>\<open>Number\<close> yields are finite in the model of the client.)
\<close>

definition as_numbers :: "real RetryOptions \<Rightarrow> number RetryOptions" where
  "as_numbers cfg =
     \<lparr>retries = Fin (retries cfg), baseDelayMs = Fin (baseDelayMs cfg),
      maxDelayMs = Fin (maxDelayMs cfg)\<rparr>"

subsection \<open>Options\<close>

text \<open>\<^verbatim>\<open>a ?? b\<close>.\<close>

definition nullish :: "'a option \<Rightarrow> 'a \<Rightarrow> 'a" where
  "nullish a b = (case a of Some v \<Rightarrow> v | None \<Rightarrow> b)"

text \<open>
  \<^verbatim>\<open>Number(process.env.NAME ?? literal)\<close>: the conversion of the variable's text when the
  variable is set, the literal otherwise. \<open>Number\<close> is JavaScript's conversion of a
  string.
\<close>

definition env_Number :: "(string \<Rightarrow> real) \<Rightarrow> env \<Rightarrow> string \<Rightarrow> real \<Rightarrow> real" where
  "env_Number Number env name literal =
     (case env name of Some text \<Rightarrow> Number text | None \<Rightarrow> literal)"

text \<open>\<^verbatim>\<open>mergeOptions\<close> (lines 253-290); \<^verbatim>\<open>opts?.retry?.retries\<close> is a chain of binds.\<close>

definition mergeOptions ::
  "(string \<Rightarrow> real) \<Rightarrow> env \<Rightarrow> HttpClientOptions option \<Rightarrow> RequiredOptions" where
  "mergeOptions Number env opts =
     (let timeoutMs =
            nullish (Option.bind opts Options.timeoutMs)
              (env_Number Number env ''HTTP_TIMEOUT_MS'' 6000)
      in \<lparr>Options.timeoutMs = timeoutMs,
          retry = \<lparr>
            retries =
              nullish (Option.bind (Option.bind opts retry) retries)
                (env_Number Number env ''HTTP_RETRY_COUNT'' 2),
            baseDelayMs =
              nullish (Option.bind (Option.bind opts retry) baseDelayMs)
                (env_Number Number env ''HTTP_RETRY_BASE_DELAY_MS'' 250),
            maxDelayMs =
              nullish (Option.bind (Option.bind opts retry) maxDelayMs)
                (env_Number Number env ''HTTP_RETRY_MAX_DELAY_MS'' 1500)\<rparr>,
          breaker = \<lparr>
            enabled =
              nullish (Option.bind (Option.bind opts breaker) enabled)
                (nullish (env ''HTTP_BREAKER_ENABLED'') ''true'' = ''true''),
            BreakerOptions.timeoutMs =
              nullish (Option.bind (Option.bind opts breaker) BreakerOptions.timeoutMs)
                (env_Number Number env ''HTTP_BREAKER_TIMEOUT_MS'' 3500),
            errorThresholdPercentage =
              nullish (Option.bind (Option.bind opts breaker) errorThresholdPercentage)
                (env_Number Number env ''HTTP_BREAKER_ERR_PCT'' 50),
            resetTimeoutMs =
              nullish (Option.bind (Option.bind opts breaker) resetTimeoutMs)
                (env_Number Number env ''HTTP_BREAKER_RESET_MS'' 10000),
            rollingCountTimeoutMs =
              nullish (Option.bind (Option.bind opts breaker) rollingCountTimeoutMs)
                (env_Number Number env ''HTTP_BREAKER_ROLLING_MS'' 10000),
            rollingCountBuckets =
              nullish (Option.bind (Option.bind opts breaker) rollingCountBuckets)
                (env_Number Number env ''HTTP_BREAKER_BUCKETS'' 10)\<rparr>\<rparr>)"

subsection \<open>Service key\<close>

text \<open>The part of a parsed \<^verbatim>\<open>URL\<close> object that the class reads.\<close>

record URL =
  hostname :: string
  pathname :: string

text \<open>
  \<^verbatim>\<open>deriveServiceKey\<close> (lines 293-303). \<open>new_URL\<close> is the URL constructor: \<open>None\<close>
  where it throws.
\<close>

definition deriveServiceKey :: "(string \<Rightarrow> URL option) \<Rightarrow> string \<Rightarrow> string" where
  "deriveServiceKey new_URL url =
     (case new_URL url of Some u \<Rightarrow> hostname u | None \<Rightarrow> ''default'')"

subsection \<open>The axios instance\<close>

text \<open>
  The caller's \<^verbatim>\<open>AxiosRequestConfig\<close>, the arguments of \<^verbatim>\<open>doAxios\<close>, and the request
  object it builds. A property of the config that \<^verbatim>\<open>doAxios\<close> also sets is \<open>None\<close>
  when the config has no such property, and \<open>Some v\<close> when it has one with the value
  \<open>v\<close>, which can be \<^verbatim>\<open>undefined\<close>; the other properties are a list of names and
  values. In the request object every property is there and can be \<^verbatim>\<open>undefined\<close>.
\<close>

record 'a AxiosRequestConfig =
  config_method :: "HttpMethod option option"
  config_url :: "string option option"
  config_data :: "'a option option"
  config_timeout :: "real option option"
  config_headers :: "header_list option option"
  config_other :: "(string \<times> string) list"

record 'a Args =
  arg_method :: HttpMethod
  arg_url :: string
  arg_data :: "'a option"
  arg_config :: "'a AxiosRequestConfig option"
  arg_timeoutMs :: real

record 'a AxiosRequest =
  req_method :: "HttpMethod option"
  req_url :: "string option"
  req_data :: "'a option"
  req_timeout :: "real option"
  req_headers :: header_list
  req_other :: "(string \<times> string) list"

text \<open>
  What one call of the instance did: its result, the number of exchanges with the
  destination, and the delays slept between them, in order.
\<close>

record 'r Trace =
  outcome :: 'r
  attempts :: nat
  sleeps :: "number list"

text \<open>
  Modelled from the spec: the retry loop that axios-retry installs on the instance is
  library code that is not part of the sources; the class gives it \<^verbatim>\<open>retries\<close>,
  \<^verbatim>\<open>retryCondition\<close> (\<^verbatim>\<open>shouldRetry\<close>) and \<^verbatim>\<open>retryDelay\<close> (lines 55-70). Spec 4.5,
  step 5: an attempt is made; a success is returned at once (5c); a failure that is
  retryable while attempts remain is followed by a sleep of \<open>retryDelay\<close> and the next
  attempt (5d); any other failure is surfaced (5e). \<open>send n\<close> is the result of the
  \<open>n\<close>-th exchange, \<open>rnd n\<close> the double that \<^verbatim>\<open>Math.random()\<close> returns at the \<open>n\<close>-th retry,
  \<open>remaining\<close> the number of retries still allowed and \<open>retryCount\<close> the number made.
\<close>

fun attempt_loop ::
  "real RetryOptions \<Rightarrow> ('a AxiosError \<Rightarrow> bool) \<Rightarrow> (nat \<Rightarrow> 'a AxiosError + 'a AxiosResponse) \<Rightarrow>
   (nat \<Rightarrow> real) \<Rightarrow> nat \<Rightarrow> nat \<Rightarrow> ('a AxiosError + 'a AxiosResponse) Trace" where
  "attempt_loop cfg isNet send rnd 0 retryCount =
     \<lparr>outcome = send (Suc retryCount), attempts = Suc retryCount, sleeps = []\<rparr>"
| "attempt_loop cfg isNet send rnd (Suc remaining) retryCount =
     (case send (Suc retryCount) of
        Inr res \<Rightarrow> \<lparr>outcome = Inr res, attempts = Suc retryCount, sleeps = []\<rparr>
      | Inl error \<Rightarrow>
          if shouldRetry isNet error then
            (let delay = retryDelay (as_numbers cfg) (Suc retryCount) (rnd (Suc retryCount));
                 rest = attempt_loop cfg isNet send rnd remaining (Suc retryCount)
             in rest\<lparr>sleeps := delay # sleeps rest\<rparr>)
          else \<lparr>outcome = Inl error, attempts = Suc retryCount, sleeps = []\<rparr>)"

text \<open>
  Modelled from the spec: \<^verbatim>\<open>this.axios.request\<close> of an instance with axios-retry
  installed is library code that is not part of the sources. Spec 4.5, step 5, runs the
  attempts from 1 to \<open>maxAttempts\<close>, the first attempt and the retries (spec 6: the retry
  count is the number of "additional attempts"): the loop starts with no retry made, and
  a retry is allowed while the retries made are fewer than the \<^verbatim>\<open>retries\<close> that the
  constructor read (line 51).
\<close>

definition axios_request ::
  "real RetryOptions \<Rightarrow> ('a AxiosError \<Rightarrow> bool) \<Rightarrow> (nat \<Rightarrow> 'a AxiosError + 'a AxiosResponse) \<Rightarrow>
   (nat \<Rightarrow> real) \<Rightarrow> ('a AxiosError + 'a AxiosResponse) Trace" where
  "axios_request cfg isNet send rnd = attempt_loop cfg isNet send rnd (nat \<lceil>retries cfg\<rceil>) 0"


text \<open>
  The libraries under one instance: the retry predicate, the adapter (the exchanges a
  request object leads to, by attempt number) and the random samples.
\<close>

record 'a Axios =
  isNetworkOrIdempotentRequestError :: "'a AxiosError \<Rightarrow> bool"
  adapter :: "'a AxiosRequest \<Rightarrow> nat \<Rightarrow> 'a AxiosError + 'a AxiosResponse"
  Math_random :: "nat \<Rightarrow> real"

text \<open>
  \<^verbatim>\<open>{own, ...config}\<close> for one property: a property of the config, whatever its
  value, replaces the one written before the spread.
\<close>

definition spread :: "'x option \<Rightarrow> 'x option option \<Rightarrow> 'x option" where
  "spread own over = (case over of None \<Rightarrow> own | Some v \<Rightarrow> v)"

text \<open>
  The request object of \<^verbatim>\<open>doAxios\<close> (lines 177-186): the spread of \<^verbatim>\<open>config\<close> comes
  after \<^verbatim>\<open>method, url, data, timeout\<close> and brings the config's other properties;
  \<^verbatim>\<open>headers\<close> comes last and is a copy of \<^verbatim>\<open>config?.headers ?? {}\<close>.
\<close>

definition build_request :: "'a Args \<Rightarrow> 'a AxiosRequest" where
  "build_request args =
     (case arg_config args of
        None \<Rightarrow>
          \<lparr>req_method = Some (arg_method args),
           req_url = Some (arg_url args),
           req_data = arg_data args,
           req_timeout = Some (arg_timeoutMs args),
           req_headers = [],
           req_other = []\<rparr>
      | Some config \<Rightarrow>
          \<lparr>req_method = spread (Some (arg_method args)) (config_method config),
           req_url = spread (Some (arg_url args)) (config_url config),
           req_data = spread (arg_data args) (config_data config),
           req_timeout = spread (Some (arg_timeoutMs args)) (config_timeout config),
           req_headers = (case config_headers config of Some (Some hs) \<Rightarrow> hs | _ \<Rightarrow> []),
           req_other = config_other config\<rparr>)"

text \<open>The same trace with another result.\<close>

definition map_outcome :: "('r \<Rightarrow> 'q) \<Rightarrow> 'r Trace \<Rightarrow> 'q Trace" where
  "map_outcome f t = \<lparr>outcome = f (outcome t), attempts = attempts t, sleeps = sleeps t\<rparr>"

text \<open>\<^verbatim>\<open>doAxios\<close> (lines 168-189): a response is cut down to the triple, an error passes.\<close>

definition doAxios ::
  "real RetryOptions \<Rightarrow> 'a Axios \<Rightarrow> 'a Args \<Rightarrow> ('a AxiosError + 'a HttpResponse) Trace" where
  "doAxios cfg ax args =
     map_outcome
       (\<lambda>r. case r of
              Inl error \<Rightarrow> Inl error
            | Inr res \<Rightarrow>
                Inr \<lparr>status = res_status res, data = res_data res, headers = res_headers res\<rparr>)
       (axios_request cfg (isNetworkOrIdempotentRequestError ax)
          (adapter ax (build_request args)) (Math_random ax))"

subsection \<open>Circuit breakers\<close>

text \<open>
  A \<^verbatim>\<open>CircuitBreaker\<close> object: the options its constructor was given (lines 207-213),
  the key its listeners log, and the state that opossum keeps in it, of a type \<open>'s\<close>
  left open. \<open>breaker_id\<close> is the identity of the object: the number of breakers
  constructed before it.
\<close>

record 's CircuitBreaker =
  breaker_id :: nat
  breaker_key :: string
  timeout :: real
  errorThresholdPercentage :: real
  resetTimeout :: real
  rollingCountTimeout :: real
  rollingCountBuckets :: real
  breaker_state :: 's

text \<open>
  The fields of an \<^verbatim>\<open>HttpClient\<close>: what the constructor read for the retries, the map
  \<^verbatim>\<open>breakers\<close>, and the keys for which \<^verbatim>\<open>new CircuitBreaker\<close> has run, oldest first.
\<close>

record 's HttpClient =
  axios_timeout :: real
  retry_config :: "real RetryOptions"
  breakers :: "string \<rightharpoonup> 's CircuitBreaker"
  constructed :: "string list"

text \<open>The constructor (lines 42-89); the logging hooks are left out.\<close>

definition new_HttpClient :: "(string \<Rightarrow> real) \<Rightarrow> env \<Rightarrow> 's HttpClient" where
  "new_HttpClient Number env =
     \<lparr>axios_timeout = env_Number Number env ''HTTP_TIMEOUT_MS'' 6000,
      retry_config =
        \<lparr>retries = env_Number Number env ''HTTP_RETRY_COUNT'' 2,
         baseDelayMs = env_Number Number env ''HTTP_RETRY_BASE_DELAY_MS'' 250,
         maxDelayMs = env_Number Number env ''HTTP_RETRY_MAX_DELAY_MS'' 1500\<rparr>,
      breakers = Map.empty,
      constructed = []\<rparr>"

text \<open>
  \<^verbatim>\<open>getOrCreateBreaker\<close> (lines 192-238). \<open>fresh\<close> is the state of a breaker that
  opossum has just constructed. A breaker object is truthy, so \<^verbatim>\<open>if (existing)\<close> asks
  whether the map has the key.
\<close>

definition getOrCreateBreaker ::
  "'s \<Rightarrow> string \<Rightarrow> RequiredOptions \<Rightarrow> 's HttpClient \<Rightarrow> 's CircuitBreaker \<times> 's HttpClient" where
  "getOrCreateBreaker fresh serviceKey opts client =
     (case breakers client serviceKey of
        Some existing \<Rightarrow> (existing, client)
      | None \<Rightarrow>
          (let b = \<lparr>breaker_id = length (constructed client),
                    breaker_key = serviceKey,
                    timeout = BreakerOptions.timeoutMs (breaker opts),
                    errorThresholdPercentage =
                      BreakerOptions.errorThresholdPercentage (breaker opts),
                    resetTimeout = resetTimeoutMs (breaker opts),
                    rollingCountTimeout = rollingCountTimeoutMs (breaker opts),
                    rollingCountBuckets = BreakerOptions.rollingCountBuckets (breaker opts),
                    breaker_state = fresh\<rparr>
           in (b, client\<lparr>breakers := (breakers client)(serviceKey \<mapsto> b),
                         constructed := constructed client @ [serviceKey]\<rparr>)))"

subsection \<open>The request\<close>

text \<open>A call fails with the error axios threw or with an error of the breaker.\<close>

datatype 'a Failure = AxiosFailure "'a AxiosError" | BreakerFailure string

text \<open>
  Everything outside the class: \<^verbatim>\<open>Number\<close>, \<^verbatim>\<open>process.env\<close>, the URL constructor,
  axios, and opossum (\<open>fresh_state\<close>, and \<^verbatim>\<open>fire\<close>, which is given the action the
  breaker wraps and returns the result with the breaker's next state).
\<close>

record ('a, 's) Platform =
  Number :: "string \<Rightarrow> real"
  process_env :: env
  new_URL :: "string \<Rightarrow> URL option"
  axios :: "'a Axios"
  fresh_state :: 's
  fire :: "('a Args \<Rightarrow> ('a AxiosError + 'a HttpResponse) Trace) \<Rightarrow> 's CircuitBreaker \<Rightarrow> 'a Args \<Rightarrow>
           ('a Failure + 'a HttpResponse) Trace \<times> 's"

text \<open>\<^verbatim>\<open>request\<close> (lines 136-166).\<close>

definition request ::
  "('a, 's) Platform \<Rightarrow> HttpMethod \<Rightarrow> string \<Rightarrow> 'a option \<Rightarrow> 'a AxiosRequestConfig option \<Rightarrow>
   HttpClientOptions option \<Rightarrow> 's HttpClient \<Rightarrow> ('a Failure + 'a) Trace \<times> 's HttpClient" where
  "request pf http_method url payload config opts client =
     (let mergedOpts = mergeOptions (Number pf) (process_env pf) opts;
          serviceKey = deriveServiceKey (new_URL pf) url;
          args = \<lparr>arg_method = http_method, arg_url = url, arg_data = payload,
                  arg_config = config, arg_timeoutMs = Options.timeoutMs mergedOpts\<rparr>
      in if enabled (breaker mergedOpts) then
           (let (b, client1) = getOrCreateBreaker (fresh_state pf) serviceKey mergedOpts client;
                (res, st) = fire pf (doAxios (retry_config client) (axios pf)) b args
            in (map_outcome (map_sum id data) res,
                client1\<lparr>breakers := (breakers client1)(serviceKey \<mapsto> b\<lparr>breaker_state := st\<rparr>)\<rparr>))
         else
           (map_outcome (map_sum AxiosFailure data)
              (doAxios (retry_config client) (axios pf) args),
            client))"

text \<open>The public API (lines 92-133).\<close>

definition get ::
  "('a, 's) Platform \<Rightarrow> string \<Rightarrow> 'a AxiosRequestConfig option \<Rightarrow> HttpClientOptions option \<Rightarrow>
   's HttpClient \<Rightarrow> ('a Failure + 'a) Trace \<times> 's HttpClient" where
  "get pf url config opts = request pf GET url None config opts"

definition post ::
  "('a, 's) Platform \<Rightarrow> string \<Rightarrow> 'a option \<Rightarrow> 'a AxiosRequestConfig option \<Rightarrow>
   HttpClientOptions option \<Rightarrow> 's HttpClient \<Rightarrow> ('a Failure + 'a) Trace \<times> 's HttpClient" where
  "post pf url payload config opts = request pf POST url payload config opts"

definition put ::
  "('a, 's) Platform \<Rightarrow> string \<Rightarrow> 'a option \<Rightarrow> 'a AxiosRequestConfig option \<Rightarrow>
   HttpClientOptions option \<Rightarrow> 's HttpClient \<Rightarrow> ('a Failure + 'a) Trace \<times> 's HttpClient" where
  "put pf url payload config opts = request pf PUT url payload config opts"

definition patch ::
  "('a, 's) Platform \<Rightarrow> string \<Rightarrow> 'a option \<Rightarrow> 'a AxiosRequestConfig option \<Rightarrow>
   HttpClientOptions option \<Rightarrow> 's HttpClient \<Rightarrow> ('a Failure + 'a) Trace \<times> 's HttpClient" where
  "patch pf url payload config opts = request pf PATCH url payload config opts"

definition delete ::
  "('a, 's) Platform \<Rightarrow> string \<Rightarrow> 'a AxiosRequestConfig option \<Rightarrow> HttpClientOptions option \<Rightarrow>
   's HttpClient \<Rightarrow> ('a Failure + 'a) Trace \<times> 's HttpClient" where
  "delete pf url config opts = request pf DELETE url None config opts"


subsection \<open>Sequences of calls\<close>

text \<open>
  The calls of the public API that a client serves, one after the other. Calls can
  overlap while they wait, but \<^verbatim>\<open>getOrCreateBreaker\<close> has no \<^verbatim>\<open>await\<close>: every run of
  it is one step of the event loop, so the map sees the runs in some order.
\<close>

record 'a Call =
  call_method :: HttpMethod
  call_url :: string
  call_payload :: "'a option"
  call_config :: "'a AxiosRequestConfig option"
  call_opts :: "HttpClientOptions option"

fun requests :: "('a, 's) Platform \<Rightarrow> 'a Call list \<Rightarrow> 's HttpClient \<Rightarrow> 's HttpClient" where
  "requests pf [] client = client"
| "requests pf (c # cs) client =
     requests pf cs
       (snd (request pf (call_method c) (call_url c) (call_payload c) (call_config c)
               (call_opts c) client))"

text \<open>
  What holds of the map and the constructions in every state a client reaches: a
  breaker was constructed only for keys the map has, and for no key twice.
\<close>

definition registry_inv :: "'s HttpClient \<Rightarrow> bool" where
  "registry_inv c = (set (constructed c) \<subseteq> dom (breakers c) \<and> distinct (constructed c))"

subsection \<open>Sample inputs\<close>

text \<open>
  The error axios throws for a response with a status outside 2xx, and the error it
  throws when no response arrived.
\<close>

definition status_error :: "HttpMethod \<Rightarrow> int \<Rightarrow> string AxiosError" where
  "status_error m s =
     \<lparr>code = Some ''ERR_BAD_RESPONSE'',
      response = Some \<lparr>res_status = s, res_data = ''{}'', res_headers = [],
                        res_statusText = ''error''\<rparr>,
      message = ''Request failed'',
      request_method = m\<rparr>"

definition network_error :: "HttpMethod \<Rightarrow> string AxiosError" where
  "network_error m =
     \<lparr>code = Some ''ECONNREFUSED'', response = None, message = ''connect ECONNREFUSED'',
      request_method = m\<rparr>"

text \<open>The configuration of the spec's backoff scenario and the one of an unset environment.\<close>

definition scenario_config :: "real RetryOptions" where
  "scenario_config = \<lparr>retries = 2, baseDelayMs = 100, maxDelayMs = 800\<rparr>"

definition default_config :: "real RetryOptions" where
  "default_config = \<lparr>retries = 2, baseDelayMs = 250, maxDelayMs = 1500\<rparr>"

text \<open>A configuration with \<^verbatim>\<open>HTTP_RETRY_BASE_DELAY_MS=50\<close>.\<close>

definition low_base_config :: "real RetryOptions" where
  "low_base_config = \<lparr>retries = 2, baseDelayMs = 50, maxDelayMs = 1500\<rparr>"

text \<open>
  The results of the URL constructor on three strings: two absolute URLs and a
  relative one, on which it throws.
\<close>

definition sample_new_URL :: "string \<Rightarrow> URL option" where
  "sample_new_URL =
     map_of
       [(''http://catalog-service:3001/products'',
           \<lparr>hostname = ''catalog-service'', pathname = ''/products''\<rparr>),
        (''http://order-service:3002/orders'',
           \<lparr>hostname = ''order-service'', pathname = ''/orders''\<rparr>)]"

text \<open>
  A caller's options with some fields set: a timeout, no retry object, and a breaker
  object that only switches the breaker off and sets the threshold.
\<close>

definition partial_options :: HttpClientOptions where
  "partial_options =
     \<lparr>Options.timeoutMs = Some 1000,
      retry = None,
      breaker = Some \<lparr>enabled = Some False, BreakerOptions.timeoutMs = None,
                      errorThresholdPercentage = Some 25, resetTimeoutMs = None,
                      rollingCountTimeoutMs = None, rollingCountBuckets = None\<rparr>\<rparr>"

text \<open>
  Modelled from the spec: \<^verbatim>\<open>fire\<close> of opossum is library code that is not part of the
  sources. Spec 4.3: in the state closed "all attempts pass through": the action runs
  and its result is the result of \<^verbatim>\<open>fire\<close>. The statistics that opossum keeps are not
  modelled; the state stays as it is.
\<close>

definition fire_closed ::
  "('a Args \<Rightarrow> ('a AxiosError + 'a HttpResponse) Trace) \<Rightarrow> 's CircuitBreaker \<Rightarrow> 'a Args \<Rightarrow>
   ('a Failure + 'a HttpResponse) Trace \<times> 's" where
  "fire_closed action b args =
     (map_outcome (map_sum AxiosFailure id) (action args), breaker_state b)"

text \<open>\<^verbatim>\<open>Number\<close> on the strings \<^verbatim>\<open>"-1"\<close> and \<^verbatim>\<open>"50"\<close>; no other string is converted below.\<close>

definition sample_Number :: "string \<Rightarrow> real" where
  "sample_Number text = (if text = ''-1'' then - 1 else if text = ''50'' then 50 else 0)"

text \<open>
  A second instance of the retry predicate, which also accepts a 5xx response to a
  request whose method is idempotent, as the name of the library's predicate suggests.
\<close>

definition network_or_idempotent :: "'a AxiosError \<Rightarrow> bool" where
  "network_or_idempotent error =
     (case response error of
        None \<Rightarrow> True
      | Some res \<Rightarrow>
          request_method error \<in> {GET, PUT, DELETE}
          \<and> 500 \<le> res_status res \<and> res_status res \<le> 599)"

text \<open>The constant function: a destination that answers every exchange alike.\<close>

definition always :: "'x \<Rightarrow> 'y \<Rightarrow> 'x" where
  "always x y = x"

text \<open>
  A platform with an unset environment and a given retry predicate, whose destination
  answers the \<open>n\<close>-th exchange with \<open>send n\<close>, and whose breakers are closed.
\<close>

definition sample_platform ::
  "(string AxiosError \<Rightarrow> bool) \<Rightarrow> (nat \<Rightarrow> string AxiosError + string AxiosResponse) \<Rightarrow>
   (string, unit) Platform" where
  "sample_platform isNet send =
     \<lparr>Number = sample_Number,
      process_env = Map.empty,
      new_URL = sample_new_URL,
      axios = \<lparr>isNetworkOrIdempotentRequestError = isNet,
                adapter = always send,
                Math_random = always 0\<rparr>,
      fresh_state = (),
      fire = fire_closed\<rparr>"

definition ok_response :: "int \<Rightarrow> header_list \<Rightarrow> string AxiosResponse" where
  "ok_response s hs =
     \<lparr>res_status = s, res_data = ''[]'', res_headers = hs, res_statusText = ''OK''\<rparr>"

text \<open>
  The destination of the spec's scenario: status 503 on the first two exchanges, then
  success.
\<close>

definition scenario_send :: "nat \<Rightarrow> string AxiosError + string AxiosResponse" where
  "scenario_send n = (if n < 3 then Inl (status_error GET 503) else Inr (ok_response 200 []))"

text \<open>A caller's options that set every field of the breaker.\<close>

definition strict_options :: HttpClientOptions where
  "strict_options =
     \<lparr>Options.timeoutMs = None,
      retry = None,
      breaker = Some \<lparr>enabled = Some True, BreakerOptions.timeoutMs = Some 100,
                      errorThresholdPercentage = Some 10, resetTimeoutMs = Some 500,
                      rollingCountTimeoutMs = Some 1000, rollingCountBuckets = Some 5\<rparr>\<rparr>"

text \<open>
  A client that has made its first call to \<^verbatim>\<open>catalog-service\<close> with the default
  options, and the breaker this call constructed.
\<close>

definition first_client :: "unit HttpClient" where
  "first_client =
     snd (getOrCreateBreaker () ''catalog-service'' (mergeOptions sample_Number Map.empty None)
            (new_HttpClient sample_Number Map.empty))"

definition first_breaker :: "unit CircuitBreaker" where
  "first_breaker =
     \<lparr>breaker_id = 0, breaker_key = ''catalog-service'', timeout = 3500,
      errorThresholdPercentage = 50, resetTimeout = 10000, rollingCountTimeout = 10000,
      rollingCountBuckets = 10, breaker_state = ()\<rparr>"

text \<open>
  Configurations with \<^verbatim>\<open>HTTP_RETRY_BASE_DELAY_MS=-100\<close> and with
  \<^verbatim>\<open>HTTP_RETRY_COUNT=1.5\<close>.
\<close>

definition negative_base_config :: "real RetryOptions" where
  "negative_base_config = \<lparr>retries = 2, baseDelayMs = - 100, maxDelayMs = 1500\<rparr>"



text \<open>
  Configurations as the callback \<^verbatim>\<open>retryDelay\<close> sees them: base and maximum delay
  \<open>2 ^ 53\<close>, base and maximum delay \<open>2 ^ 58\<close>, and a base delay of 0 with 2000
  retries.
\<close>

definition exact_limit_config :: "number RetryOptions" where
  "exact_limit_config = \<lparr>retries = Fin 2, baseDelayMs = Fin (2 ^ 53), maxDelayMs = Fin (2 ^ 53)\<rparr>"

definition huge_config :: "number RetryOptions" where
  "huge_config = \<lparr>retries = Fin 2, baseDelayMs = Fin (2 ^ 58), maxDelayMs = Fin (2 ^ 58)\<rparr>"

definition zero_base_config :: "number RetryOptions" where
  "zero_base_config = \<lparr>retries = Fin 2000, baseDelayMs = Fin 0, maxDelayMs = Fin 1500\<rparr>"

text \<open>
  Modelled from the spec: \<^verbatim>\<open>fire\<close> of opossum is library code that is not part of the
  sources. Spec 4.3: in the state open "all attempts [are] short-circuited and rejected
  immediately without touching the transport": the action does not run, and the call
  fails with an error of the breaker.
\<close>

definition fire_open ::
  "('a Args \<Rightarrow> ('a AxiosError + 'a HttpResponse) Trace) \<Rightarrow> 's CircuitBreaker \<Rightarrow> 'a Args \<Rightarrow>
   ('a Failure + 'a HttpResponse) Trace \<times> 's" where
  "fire_open action b args =
     (\<lparr>outcome = Inl (BreakerFailure ''EOPENBREAKER''), attempts = 0, sleeps = []\<rparr>,
      breaker_state b)"

text \<open>The sample platform with a given environment, and the one whose breakers are open.\<close>

definition sample_platform_in ::
  "env \<Rightarrow> (string AxiosError \<Rightarrow> bool) \<Rightarrow> (nat \<Rightarrow> string AxiosError + string AxiosResponse) \<Rightarrow>
   (string, unit) Platform" where
  "sample_platform_in env isNet send = (sample_platform isNet send)\<lparr>process_env := env\<rparr>"

definition open_platform ::
  "(nat \<Rightarrow> string AxiosError + string AxiosResponse) \<Rightarrow> (string, unit) Platform" where
  "open_platform send = (sample_platform connectivity_or_timeout send)\<lparr>fire := fire_open\<rparr>"


section \<open>Theorems\<close>

subsection \<open>Retry eligibility\<close>

lemma includes_retryable:
  "array_includes [429, 502, 503, 504] v = (v \<in> {Some 429, Some 502, Some 503, Some 504})"
  by (cases v) (auto simp: array_includes_def)

text \<open>
  C1, as the code has it. \<^verbatim>\<open>shouldRetry\<close> answers true exactly when the axios-retry
  predicate \<^verbatim>\<open>isNetworkOrIdempotentRequestError\<close> accepts the failure, or the error
  carries a response whose status is 429, 502, 503 or 504. A failure that the predicate
  rejects is not retried when its response has a 4xx status other than 429, or any other
  status outside the set, such as 500.
\<close>

theorem shouldRetry_iff:
  "(shouldRetry isNet (error :: 'a AxiosError) =
      (isNet error \<or> error_status error \<in> {Some 429, Some 502, Some 503, Some 504}))
   \<and> (\<not> isNet error \<and> error_status error = Some s \<and> 400 \<le> s \<and> s < 500 \<and> s \<noteq> 429
          \<longrightarrow> \<not> shouldRetry isNet error)
   \<and> (\<not> isNet error \<and> error_status error = Some s \<and> s \<notin> {429, 502, 503, 504}
          \<longrightarrow> \<not> shouldRetry isNet error)
   \<and> (\<not> isNet error \<and> error_status error = Some 500 \<longrightarrow> \<not> shouldRetry isNet error)"
  by (auto simp: shouldRetry_def includes_retryable)

theorem shouldRetry_iff_witness:
  "\<not> connectivity_or_timeout (status_error POST 404)
   \<and> error_status (status_error POST 404) = Some 404
   \<and> \<not> shouldRetry connectivity_or_timeout (status_error POST 404)
   \<and> error_status (status_error POST 500) = Some 500
   \<and> \<not> shouldRetry connectivity_or_timeout (status_error POST 500)
   \<and> shouldRetry connectivity_or_timeout (status_error POST 503)
   \<and> shouldRetry connectivity_or_timeout (network_error POST)"
  using shouldRetry_iff [of connectivity_or_timeout "status_error POST 404" 404]
    shouldRetry_iff [of connectivity_or_timeout "status_error POST 500" 500]
    shouldRetry_iff [of connectivity_or_timeout "status_error POST 503" 503]
    shouldRetry_iff [of connectivity_or_timeout "network_error POST" 0]
  by (simp add: connectivity_or_timeout_def status_error_def network_error_def error_status_def)

text \<open>
  A GET answered with 500, under a predicate that accepts the 5xx answers to idempotent
  requests: the failure carries a response, so it is no connectivity or timeout error,
  its status is outside the set, and \<^verbatim>\<open>shouldRetry\<close> answers true.
\<close>

theorem shouldRetry_iff_counterexample:
  "shouldRetry network_or_idempotent (status_error GET 500)
   \<and> error_status (status_error GET 500) = Some 500
   \<and> \<not> connectivity_or_timeout (status_error GET 500)
   \<and> network_or_idempotent (status_error GET 500)"
  by (simp add: shouldRetry_def network_or_idempotent_def status_error_def error_status_def
        connectivity_or_timeout_def)

subsection \<open>Double arithmetic\<close>

text \<open>
  Rounding to the nearest double, ties to the even significand: when it changes nothing,
  and what it gives otherwise.
\<close>

lemma round_half_even_int [simp]: "round_half_even (real_of_int z) = z"
  by (simp add: round_half_even_def)

lemma round_half_even_le: "q \<le> real_of_int N \<Longrightarrow> round_half_even q \<le> N"
  unfolding round_half_even_def Let_def
  by (auto; linarith)

lemma round_half_even_ge: "real_of_int N \<le> q \<Longrightarrow> N \<le> round_half_even q"
  unfolding round_half_even_def Let_def
  by (auto; linarith)

lemma round_half_even_below_half:
  "q < real_of_int N + 1 / 2 \<Longrightarrow> round_half_even q \<le> N"
  unfolding round_half_even_def Let_def
  by (auto; linarith)

lemma two_powr_int: "(2::real) powr real_of_int k = 2 powi k"
  by (simp add: powr_real_of_int')

lemma two_powr_int_Suc: "(2::real) powr (real_of_int k + 1) = 2 powi (k + 1)"
  using two_powr_int [of "k + 1"] by simp

lemma floor_log2_bounds:
  assumes "0 < x"
  shows "2 powi \<lfloor>log 2 x\<rfloor> \<le> x" and "x < 2 powi (\<lfloor>log 2 x\<rfloor> + 1)"
proof -
  have "2 powr real_of_int \<lfloor>log 2 x\<rfloor> \<le> x \<and> x < 2 powr (real_of_int \<lfloor>log 2 x\<rfloor> + 1)"
    using floor_log_eq_powr_iff [of x 2 "\<lfloor>log 2 x\<rfloor>"] assms by simp
  then show "2 powi \<lfloor>log 2 x\<rfloor> \<le> x" and "x < 2 powi (\<lfloor>log 2 x\<rfloor> + 1)"
    by (simp_all add: two_powr_int two_powr_int_Suc)
qed

lemma floor_log2_eqI:
  assumes "2 powi k \<le> x" and "x < 2 powi (k + 1)"
  shows "\<lfloor>log 2 x\<rfloor> = k"
proof -
  have "0 < (2::real) powi k" by simp
  with assms have pos: "0 < x" by linarith
  have "2 powr real_of_int k \<le> x \<and> x < 2 powr (real_of_int k + 1)"
    using assms by (simp add: two_powr_int two_powr_int_Suc)
  then show ?thesis using floor_log_eq_powr_iff [of x 2 k] pos by simp
qed

lemma floor_log2_mono: "0 < x \<Longrightarrow> x \<le> y \<Longrightarrow> \<lfloor>log 2 x\<rfloor> \<le> \<lfloor>log 2 y\<rfloor>"
  by (intro floor_mono) simp

lemma ulp_exponent_mono: "0 < x \<Longrightarrow> x \<le> y \<Longrightarrow> ulp_exponent x \<le> ulp_exponent y"
  unfolding ulp_exponent_def using floor_log2_mono [of x y] by simp

lemma powi_less_imp_less:
  assumes "(2::real) powi a < 2 powi b"
  shows "a < b"
proof (rule ccontr)
  assume "\<not> a < b"
  then have "b \<le> a" by simp
  then have "(2::real) powi b \<le> 2 powi a" by (intro power_int_increasing) simp_all
  with assms show False by simp
qed

lemma to_double_exact:
  assumes "x \<noteq> 0" and "\<bar>x\<bar> < 2 ^ 1024"
    and "x / 2 powi (ulp_exponent x) = real_of_int z"
  shows "to_double x = Fin x"
proof -
  have nz: "(2::real) powi (ulp_exponent x) \<noteq> 0" by simp
  from assms(3) have "real_of_int z * 2 powi (ulp_exponent x) = x"
    using nz by (simp add: field_simps)
  with assms(1,2) show ?thesis
    by (simp add: to_double_def Let_def assms(3))
qed

lemma ulp_exponent_le:
  assumes "x \<noteq> 0" and "\<bar>x\<bar> < 2 powi (53 + e)" and "- 1074 \<le> e"
  shows "ulp_exponent x \<le> e"
proof -
  from assms(1) have pos: "0 < \<bar>x\<bar>" by simp
  from floor_log2_bounds(1) [OF pos] assms(2)
  have "(2::real) powi \<lfloor>log 2 \<bar>x\<bar>\<rfloor> < 2 powi (53 + e)" by simp
  then have "\<lfloor>log 2 \<bar>x\<bar>\<rfloor> < 53 + e" by (rule powi_less_imp_less)
  with assms(3) show ?thesis by (simp add: ulp_exponent_def)
qed

lemma to_double_dyadic:
  assumes "x = real_of_int m * 2 powi e" and "m \<noteq> 0" and "\<bar>m\<bar> < 2 ^ 53" and "- 1074 \<le> e"
    and "\<bar>x\<bar> < 2 ^ 1024"
  shows "to_double x = Fin x"
proof -
  from assms(1,2) have nz: "x \<noteq> 0" by simp
  from assms(3) have "real_of_int \<bar>m\<bar> < real_of_int (2 ^ 53)" by (simp only: of_int_less_iff)
  then have "\<bar>real_of_int m\<bar> < 2 powi 53" by simp
  then have "\<bar>real_of_int m\<bar> * 2 powi e < 2 powi 53 * 2 powi e"
    by (intro mult_strict_right_mono) simp_all
  then have "\<bar>x\<bar> < 2 powi (53 + e)"
    by (simp add: assms(1) abs_mult power_int_add)
  from ulp_exponent_le [OF nz this assms(4)] have le: "ulp_exponent x \<le> e" .
  define E where "E = ulp_exponent x"
  define d where "d = nat (e - E)"
  from le have e: "e = E + int d" by (simp add: d_def E_def)
  have pw: "2 powi e = (2::real) powi E * 2 ^ d"
    by (subst e) (simp add: power_int_add)
  have "x / 2 powi E = real_of_int m * (2 powi E * 2 ^ d) / 2 powi E"
    by (simp only: assms(1) pw)
  also have "\<dots> = real_of_int m * 2 ^ d" by simp
  also have "\<dots> = real_of_int (m * 2 ^ d)" by simp
  finally have "x / 2 powi (ulp_exponent x) = real_of_int (m * 2 ^ d)"
    by (simp only: E_def)
  with nz assms(5) show ?thesis by (intro to_double_exact)
qed

lemma to_double_int:
  assumes "\<bar>i\<bar> \<le> 2 ^ 53"
  shows "to_double (real_of_int i) = Fin (real_of_int i)"
proof (cases "i = 0")
  case True
  then show ?thesis by (simp add: to_double_def)
next
  case False
  have small: "\<bar>real_of_int i\<bar> < 2 ^ 1024"
  proof -
    from assms have "real_of_int \<bar>i\<bar> \<le> real_of_int (2 ^ 53)" by (simp only: of_int_le_iff)
    then have "\<bar>real_of_int i\<bar> \<le> 2 ^ 53" by simp
    also have "(2::real) ^ 53 < 2 ^ 1024" by (intro power_strict_increasing) simp_all
    finally show ?thesis .
  qed
  show ?thesis
  proof (cases "\<bar>i\<bar> < 2 ^ 53")
    case True
    show ?thesis
      by (rule to_double_dyadic [where m = i and e = 0]) (use False True small in simp_all)
  next
    case f: False
    with assms have "\<bar>i\<bar> = 2 ^ 53" by simp
    then consider "i = 2 ^ 53" | "i = - (2 ^ 53)" by linarith
    then show ?thesis
    proof cases
      case 1
      show ?thesis
        by (rule to_double_dyadic [where m = "2 ^ 52" and e = 1]) (use 1 small in simp_all)
    next
      case 2
      show ?thesis
        by (rule to_double_dyadic [where m = "- (2 ^ 52)" and e = 1]) (use 2 small in simp_all)
    qed
  qed
qed

lemma ulp_exponent_normal:
  assumes "2 powi k \<le> x" and "x < 2 powi (k + 1)" and "- 1022 \<le> k"
  shows "ulp_exponent x = k - 52"
proof -
  have "0 < (2::real) powi k" by simp
  with assms(1) have "0 < x" by linarith
  then have "\<bar>x\<bar> = x" by simp
  with floor_log2_eqI [OF assms(1,2)] assms(3) show ?thesis
    by (simp add: ulp_exponent_def)
qed

lemma to_double_big:
  assumes "2 ^ 53 \<le> x"
  shows "to_double x = PosInf \<or> (\<exists>y. to_double x = Fin y \<and> 2 ^ 53 \<le> y)"
proof -
  have "(0::real) < 2 ^ 53" by simp
  with assms have pos: "0 < x" by linarith
  define L where "L = \<lfloor>log 2 x\<rfloor>"
  have lo: "2 powi L \<le> x" and hi: "x < 2 powi (L + 1)"
    using floor_log2_bounds [OF pos] by (simp_all add: L_def)
  from assms hi have "(2::real) powi 53 < 2 powi (L + 1)" by simp
  then have L: "53 \<le> L" using powi_less_imp_less [of 53 "L + 1"] by simp
  then have E: "ulp_exponent x = L - 52"
    using ulp_exponent_normal [OF lo hi] by simp
  define r where "r = round_half_even (x / 2 powi (L - 52))"
  define P where "P = (2::real) powi (L - 52)"
  have Ppos: "0 < P" by (simp add: P_def)
  have split: "(2::real) powi L = P * 2 ^ 52"
    using power_int_add [of "2::real" "L - 52" 52] by (simp add: P_def)
  with lo have "2 ^ 52 * P \<le> x" by (simp add: mult.commute)
  with Ppos have "2 ^ 52 \<le> x / P" by (simp add: pos_le_divide_eq)
  then have "real_of_int (2 ^ 52) \<le> x / P" by simp
  then have r: "2 ^ 52 \<le> r" unfolding r_def P_def by (rule round_half_even_ge)
  define y where "y = real_of_int r * P"
  from r have "real_of_int (2 ^ 52) \<le> real_of_int r" by (simp only: of_int_le_iff)
  then have "real_of_int (2 ^ 52) * P \<le> y"
    unfolding y_def using Ppos by (intro mult_right_mono) simp_all
  then have "2 powi L \<le> y" using split by (simp add: mult.commute)
  moreover have "(2::real) powi 53 \<le> 2 powi L" using L by (intro power_int_increasing) simp_all
  ultimately have y: "2 ^ 53 \<le> y" by simp
  then have ypos: "0 < y" by (smt (verit) zero_less_power)
  from pos have "x \<noteq> 0" by simp
  then have "to_double x = (if 2 ^ 1024 \<le> \<bar>y\<bar> then (if 0 < y then PosInf else NegInf) else Fin y)"
    by (simp add: to_double_def Let_def E y_def r_def P_def)
  with y ypos show ?thesis by auto
qed

lemma to_double_le:
  assumes "0 < x" and "x \<le> c" and "c < 2 ^ 1024"
    and "c / 2 powi (ulp_exponent c) = real_of_int N"
  shows "\<exists>y. to_double x = Fin y \<and> 0 \<le> y \<and> y \<le> c"
proof -
  define E where "E = ulp_exponent x"
  define Ec where "Ec = ulp_exponent c"
  have le: "E \<le> Ec" unfolding E_def Ec_def using assms(1,2) by (rule ulp_exponent_mono)
  define d where "d = nat (Ec - E)"
  from le have Ec: "Ec = E + int d" by (simp add: d_def)
  have pw: "(2::real) powi Ec = 2 powi E * 2 ^ d" by (subst Ec) (simp add: power_int_add)
  from assms(4) have c: "c = real_of_int N * 2 powi Ec" by (simp add: Ec_def field_simps)
  then have cE: "c / 2 powi E = real_of_int (N * 2 ^ d)" by (simp add: pw)
  define r where "r = round_half_even (x / 2 powi E)"
  have "x / 2 powi E \<le> c / 2 powi E" using assms(2) by (intro divide_right_mono) simp_all
  with cE have "x / 2 powi E \<le> real_of_int (N * 2 ^ d)" by simp
  then have r_le: "r \<le> N * 2 ^ d" unfolding r_def by (rule round_half_even_le)
  have "real_of_int 0 \<le> x / 2 powi E" using assms(1) by simp
  then have r_ge: "0 \<le> r" unfolding r_def by (rule round_half_even_ge)
  define y where "y = real_of_int r * 2 powi E"
  from r_ge have y0: "0 \<le> y" by (simp add: y_def)
  from r_le have "real_of_int r \<le> real_of_int (N * 2 ^ d)" by (simp only: of_int_le_iff)
  then have "y \<le> real_of_int (N * 2 ^ d) * 2 powi E"
    unfolding y_def by (intro mult_right_mono) simp_all
  also have "\<dots> = c" using cE by (simp add: field_simps)
  finally have yc: "y \<le> c" .
  with y0 assms(3) have "\<not> 2 ^ 1024 \<le> \<bar>y\<bar>" by simp
  moreover from assms(1) have "x \<noteq> 0" by simp
  ultimately have "to_double x = Fin y"
    by (simp add: to_double_def Let_def E_def [symmetric] r_def [symmetric] y_def [symmetric])
  with y0 yc show ?thesis by blast
qed

lemma to_double_finite:
  assumes "x \<noteq> 0" and "ulp_exponent x = e"
    and "\<bar>real_of_int (round_half_even (x / 2 powi e)) * 2 powi e\<bar> < 2 ^ 1024"
  shows "to_double x = Fin (real_of_int (round_half_even (x / 2 powi e)) * 2 powi e)"
  using assms by (simp add: to_double_def Let_def)

lemma below_overflow: "\<bar>y\<bar> \<le> 2 ^ 53 \<Longrightarrow> \<bar>y\<bar> < (2::real) ^ 1024"
proof -
  assume "\<bar>y\<bar> \<le> 2 ^ 53"
  also have "(2::real) ^ 53 < 2 ^ 1024" by (intro power_strict_increasing) simp_all
  finally show ?thesis .
qed

lemma double_below_one:
  assumes "double u" and "0 < u" and "u < 1"
  shows "u \<le> 1 - 1 / 2 ^ 53"
proof (rule ccontr)
  assume "\<not> u \<le> 1 - 1 / 2 ^ 53"
  then have gt: "1 - 1 / 2 ^ 53 < u" by simp
  have "(1::real) / 2 \<le> 1 - 1 / 2 ^ 53" by simp
  with gt have half: "1 / 2 \<le> u" by linarith
  have E: "ulp_exponent u = - 1 - 52"
    by (rule ulp_exponent_normal) (use half assms(3) in simp_all)
  define r where "r = round_half_even (u / 2 powi (- 53))"
  from assms(2) have nz: "u \<noteq> 0" by simp
  have "to_double u = Fin u" using assms(1) by (simp add: double_def)
  then have "real_of_int r * 2 powi (- 53) = u"
    using nz by (simp add: to_double_def Let_def E r_def split: if_splits)
  then have u: "u = real_of_int r / 2 ^ 53" by (simp add: power_int_minus field_simps)
  from gt have "2 ^ 53 - 1 < real_of_int r" by (simp add: u field_simps)
  then have "real_of_int (2 ^ 53 - 1) < real_of_int r" by simp
  then have 1: "2 ^ 53 - 1 < r" by (simp only: of_int_less_iff)
  from assms(3) have "real_of_int r < 2 ^ 53" by (simp add: u field_simps)
  then have "real_of_int r < real_of_int (2 ^ 53)" by simp
  then have 2: "r < 2 ^ 53" by (simp only: of_int_less_iff)
  from 1 2 show False by simp
qed

lemma jitter_range:
  assumes "double u" and "0 \<le> u" and "u < 1"
  shows "\<exists>j. Math_floor (js_times (Fin u) (Fin 100)) = Fin (real_of_int j) \<and> 0 \<le> j \<and> j \<le> 99"
proof (cases "u = 0")
  case True
  then have "Math_floor (js_times (Fin u) (Fin 100)) = Fin (real_of_int 0)"
    by (simp add: to_double_def)
  then show ?thesis by (intro exI [of _ 0]) simp
next
  case False
  with assms(2) have pos: "0 < u" by simp
  from double_below_one [OF assms(1) pos assms(3)] have u: "u \<le> 1 - 1 / 2 ^ 53" .
  define x where "x = u * 100"
  from pos have xpos: "0 < x" by (simp add: x_def)
  from u have xle: "x \<le> 100 - 100 / 2 ^ 53" by (simp add: x_def)
  have "\<exists>y. to_double x = Fin y \<and> 0 \<le> y \<and> y < 100"
  proof (cases "x \<le> 64")
    case True
    have E64: "ulp_exponent 64 = 6 - 52" by (rule ulp_exponent_normal) simp_all
    have "64 / 2 powi (ulp_exponent 64) = real_of_int (64 * 2 ^ 46)"
      by (simp add: E64)
    from to_double_le [OF xpos True _ this] obtain y where
      "to_double x = Fin y" "0 \<le> y" "y \<le> 64" by auto
    then show ?thesis by (intro exI [of _ y]) simp
  next
    case False
    then have lo: "2 powi 6 \<le> x" by simp
    from xle have "x < 128" by simp
    then have hi: "x < 2 powi (6 + 1)" by simp
    have E: "ulp_exponent x = 6 - 52" by (rule ulp_exponent_normal [OF lo hi]) simp
    define r where "r = round_half_even (x / 2 powi (- 46))"
    have "x / 2 powi (- 46) = x * 2 ^ 46" by (simp add: power_int_minus field_simps)
    also from xle have "\<dots> \<le> (100 - 100 / 2 ^ 53) * 2 ^ 46" by simp
    also have "\<dots> < real_of_int (100 * 2 ^ 46 - 1) + 1 / 2" by simp
    finally have "r \<le> 100 * 2 ^ 46 - 1" unfolding r_def by (rule round_half_even_below_half)
    then have "real_of_int r \<le> real_of_int (100 * 2 ^ 46 - 1)" by (simp only: of_int_le_iff)
    then have rle: "real_of_int r \<le> 100 * 2 ^ 46 - 1" by simp
    have "real_of_int 0 \<le> x / 2 powi (- 46)" using xpos by simp
    then have "0 \<le> r" unfolding r_def by (rule round_half_even_ge)
    then have rge: "0 \<le> real_of_int r" by simp
    define y where "y = real_of_int r * 2 powi (- 46)"
    have y: "y = real_of_int r / 2 ^ 46" by (simp add: y_def power_int_minus field_simps)
    from rge have y0: "0 \<le> y" by (simp add: y)
    from rle have "y \<le> (100 * 2 ^ 46 - 1) / 2 ^ 46" unfolding y by (intro divide_right_mono) simp_all
    also have "\<dots> < (100::real)" by simp
    finally have y100: "y < 100" .
    from y0 y100 have "\<bar>y\<bar> \<le> 2 ^ 53" by simp
    then have "\<bar>y\<bar> < 2 ^ 1024" by (rule below_overflow)
    then have small: "\<bar>real_of_int (round_half_even (x / 2 powi (- 46))) * 2 powi (- 46)\<bar>
                        < 2 ^ 1024"
      by (simp only: y_def r_def)
    from xpos have "x \<noteq> 0" by simp
    moreover from E have "ulp_exponent x = - 46" by simp
    ultimately have "to_double x
        = Fin (real_of_int (round_half_even (x / 2 powi (- 46))) * 2 powi (- 46))"
      using small by (rule to_double_finite)
    then have "to_double x = Fin y" by (simp only: y_def r_def)
    with y0 y100 show ?thesis by blast
  qed
  then obtain y where y: "to_double x = Fin y" "0 \<le> y" "y < 100" by blast
  have "Math_floor (js_times (Fin u) (Fin 100)) = Fin (real_of_int \<lfloor>y\<rfloor>)"
    using y(1) by (simp add: x_def)
  moreover from y(2) have "0 \<le> \<lfloor>y\<rfloor>" by simp
  moreover from y(3) have "\<lfloor>y\<rfloor> \<le> 99" by (simp add: floor_le_iff)
  ultimately show ?thesis by blast
qed

lemma expo_overflow:
  assumes "1024 \<le> int rc - 1" and "0 < b" and "\<bar>m\<bar> \<le> 2 ^ 53 - 100"
  shows "Math_min (Fin (real_of_int m))
                (js_times (Fin (real_of_int b)) (two_to_the (int rc - 1)))
              = Fin (real_of_int (min m (b * 2 ^ (rc - 1))))"
proof -
  from assms(1) have "53 \<le> rc - 1" by simp
  then have "(2::int) ^ 53 \<le> 2 ^ (rc - 1)" by (intro power_increasing) simp_all
  also from assms(2) have "(2::int) ^ (rc - 1) \<le> b * 2 ^ (rc - 1)" by simp
  finally have "m \<le> b * 2 ^ (rc - 1)" using assms(3) by linarith
  then have mp: "min m (b * 2 ^ (rc - 1)) = m" by (rule min_absorb1)
  from assms(1) have t: "two_to_the (int rc - 1) = PosInf" by (simp add: two_to_the_def)
  from assms(2) have "js_times (Fin (real_of_int b)) PosInf = PosInf" by simp
  then show ?thesis by (simp only: t mp Math_min.simps)
qed

lemma expo_product:
  assumes "1 \<le> rc" and "\<not> 1024 \<le> int rc - 1"
  shows "js_times (Fin (real_of_int b)) (two_to_the (int rc - 1))
           = to_double (real_of_int (b * 2 ^ (rc - 1)))"
proof -
  from assms have k: "\<not> int rc - 1 < - 1074" by simp
  have "int rc - 1 = int (rc - 1)" using assms(1) by simp
  then have "(2::real) powi (int rc - 1) = 2 powi int (rc - 1)" by (simp only:)
  then have pw: "(2::real) powi (int rc - 1) = 2 ^ (rc - 1)" by (simp only: power_int_of_nat)
  have "two_to_the (int rc - 1) = Fin (2 ^ (rc - 1))"
    using assms(2) k by (simp only: two_to_the_def if_False pw)
  then show ?thesis by (simp only: js_times.simps of_int_mult of_int_power of_int_numeral)
qed

lemma expo_finite:
  assumes "0 \<le> p" and "\<bar>m\<bar> \<le> 2 ^ 53 - 100"
  shows "Math_min (Fin (real_of_int m)) (to_double (real_of_int p))
           = Fin (real_of_int (min m p))"
proof (cases "p \<le> 2 ^ 53")
  case True
  with assms(1) have "\<bar>p\<bar> \<le> 2 ^ 53" by simp
  then have "to_double (real_of_int p) = Fin (real_of_int p)" by (rule to_double_int)
  then have "Math_min (Fin (real_of_int m)) (to_double (real_of_int p))
               = Fin (min (real_of_int m) (real_of_int p))"
    by (simp only: Math_min.simps)
  also have "min (real_of_int m) (real_of_int p) = real_of_int (min m p)"
    by (simp only: of_int_min)
  finally show ?thesis .
next
  case False
  then have "2 ^ 53 \<le> p" by simp
  then have "real_of_int (2 ^ 53) \<le> real_of_int p" by (simp only: of_int_le_iff)
  then have big: "2 ^ 53 \<le> real_of_int p" by simp
  from assms(2) have "m \<le> 2 ^ 53 - 100" by simp
  then have "real_of_int m \<le> real_of_int (2 ^ 53 - 100)" by (simp only: of_int_le_iff)
  then have mr: "real_of_int m \<le> 2 ^ 53 - 100" by simp
  from False assms(2) have "m \<le> p" by linarith
  then have mp: "min m p = m" by (rule min_absorb1)
  from to_double_big [OF big] show ?thesis
  proof
    assume "to_double (real_of_int p) = PosInf"
    then show ?thesis by (simp only: mp Math_min.simps)
  next
    assume "\<exists>y. to_double (real_of_int p) = Fin y \<and> 2 ^ 53 \<le> y"
    then obtain y where y: "to_double (real_of_int p) = Fin y" "2 ^ 53 \<le> y" by blast
    from y(2) mr have "real_of_int m \<le> y" by linarith
    then have "min (real_of_int m) y = real_of_int m" by (rule min_absorb1)
    then show ?thesis by (simp only: y(1) mp Math_min.simps)
  qed
qed

lemma delay_sum:
  assumes "0 \<le> p" and "\<bar>m\<bar> \<le> 2 ^ 53 - 100" and "0 \<le> j" and "j \<le> 99"
  shows "js_plus (Fin (real_of_int (min m p))) (Fin (real_of_int j))
           = Fin (real_of_int (min m p + j))"
proof -
  from assms(1,2) have "- (2 ^ 53 - 100) \<le> min m p" and "min m p \<le> 2 ^ 53 - 100"
    by linarith+
  with assms(3,4) have "\<bar>min m p + j\<bar> \<le> 2 ^ 53" by linarith
  then have "to_double (real_of_int (min m p + j)) = Fin (real_of_int (min m p + j))"
    by (rule to_double_int)
  then show ?thesis by (simp only: js_plus.simps of_int_add)
qed

lemma retryDelay_exact:
  assumes base: "baseDelayMs cfg = Fin (real_of_int b)"
    and max: "maxDelayMs cfg = Fin (real_of_int m)"
    and b: "0 \<le> b" and m: "\<bar>m\<bar> \<le> 2 ^ 53 - 100"
    and rc: "1 \<le> rc" and nan: "0 < b \<or> rc \<le> 1024"
    and jit: "Math_floor (js_times (Fin u) (Fin 100)) = Fin (real_of_int j)"
    and j: "0 \<le> j" "j \<le> 99"
  shows "retryDelay cfg rc u = Fin (real_of_int (min m (b * 2 ^ (rc - 1)) + j))"
proof -
  define p where "p = b * 2 ^ (rc - 1)"
  from b have p0: "0 \<le> p" by (simp add: p_def)
  have expo: "Math_min (Fin (real_of_int m))
                (js_times (Fin (real_of_int b)) (two_to_the (int rc - 1)))
              = Fin (real_of_int (min m p))"
  proof (cases "1024 \<le> int rc - 1")
    case True
    with nan have "0 < b" by linarith
    from expo_overflow [OF True this m] show ?thesis by (simp only: p_def)
  next
    case False
    from expo_product [OF rc False] expo_finite [OF p0 m] show ?thesis
      by (simp only: p_def)
  qed
  have "retryDelay cfg rc u
          = js_plus (Math_min (maxDelayMs cfg)
                       (js_times (baseDelayMs cfg) (two_to_the (int rc - 1))))
              (Math_floor (js_times (Fin u) (Fin 100)))"
    by (simp only: retryDelay_def Let_def)
  also have "\<dots> = js_plus (Fin (real_of_int (min m p))) (Fin (real_of_int j))"
    by (simp only: base max expo jit)
  also have "\<dots> = Fin (real_of_int (min m p + j))"
    using p0 m j by (rule delay_sum)
  finally show ?thesis by (simp only: p_def)
qed

lemma to_double_tie: "to_double (2 ^ 53 + 99) = Fin (2 ^ 53 + 100)"
proof -
  have E: "ulp_exponent (2 ^ 53 + 99) = 53 - 52"
    by (rule ulp_exponent_normal) simp_all
  have r: "round_half_even ((2 ^ 53 + 99) / 2 powi 1) = 2 ^ 52 + 50"
    by (simp add: round_half_even_def Let_def)
  have "\<bar>real_of_int (2 ^ 52 + 50) * 2 powi 1\<bar> \<le> 2 ^ 53 + 100" by simp
  also have "(2::real) ^ 53 + 100 < 2 ^ 1024"
  proof -
    have "(2::real) ^ 53 + 100 < 2 ^ 54" by simp
    also have "(2::real) ^ 54 < 2 ^ 1024" by (intro power_strict_increasing) simp_all
    finally show ?thesis .
  qed
  finally have small: "\<bar>real_of_int (round_half_even ((2 ^ 53 + 99) / 2 powi 1)) * 2 powi 1\<bar>
                         < 2 ^ 1024"
    by (simp only: r)
  have "to_double (2 ^ 53 + 99)
          = Fin (real_of_int (round_half_even ((2 ^ 53 + 99) / 2 powi 1)) * 2 powi 1)"
    by (rule to_double_finite [OF _ _ small]) (use E in simp_all)
  then show ?thesis by (simp only: r) simp
qed

lemma double_zero: "double 0"
  by (simp add: double_def to_double_def)

lemma to_double_3_8: "to_double (3 / 8) = Fin (3 / 8)"
  by (rule to_double_dyadic [where m = 3 and e = "- 3"]) (simp_all add: below_overflow)

lemma to_double_127_128: "to_double (127 / 128) = Fin (127 / 128)"
  by (rule to_double_dyadic [where m = 127 and e = "- 7"]) (simp_all add: below_overflow)

lemma to_double_75_2: "to_double (75 / 2) = Fin (75 / 2)"
  by (rule to_double_dyadic [where m = 75 and e = "- 1"]) (simp_all add: below_overflow)

lemma to_double_3175_32: "to_double (3175 / 32) = Fin (3175 / 32)"
  by (rule to_double_dyadic [where m = 3175 and e = "- 5"]) (simp_all add: below_overflow)

lemma jitter_0: "Math_floor (js_times (Fin 0) (Fin 100)) = Fin (real_of_int 0)"
  by (simp add: to_double_def)

lemma jitter_37: "Math_floor (js_times (Fin (3 / 8)) (Fin 100)) = Fin (real_of_int 37)"
  by (simp add: to_double_75_2)

lemma jitter_99: "Math_floor (js_times (Fin (127 / 128)) (Fin 100)) = Fin (real_of_int 99)"
  by (simp add: to_double_3175_32)

lemma double_3_8: "double (3 / 8)"
  by (simp add: double_def to_double_3_8)

lemma double_127_128: "double (127 / 128)"
  by (simp add: double_def to_double_127_128)

lemma to_double_2_53: "to_double (2 ^ 53) = Fin (2 ^ 53)"
  using to_double_int [of "2 ^ 53"] by simp

lemma to_double_2_58: "to_double (2 ^ 58) = Fin (2 ^ 58)"
  by (rule to_double_dyadic [where m = 1 and e = 58]) simp_all

lemma to_double_round_up: "to_double (2 ^ 58 + 99) = Fin (2 ^ 58 + 128)"
proof -
  have E: "ulp_exponent (2 ^ 58 + 99) = 58 - 52"
    by (rule ulp_exponent_normal) simp_all
  have r: "round_half_even ((2 ^ 58 + 99) / 2 powi 6) = 2 ^ 52 + 2"
    by (simp add: round_half_even_def Let_def)
  have "\<bar>real_of_int (2 ^ 52 + 2) * 2 powi 6\<bar> \<le> 2 ^ 58 + 128" by simp
  also have "(2::real) ^ 58 + 128 < 2 ^ 1024"
  proof -
    have "(2::real) ^ 58 + 128 < 2 ^ 59" by simp
    also have "(2::real) ^ 59 < 2 ^ 1024" by (intro power_strict_increasing) simp_all
    finally show ?thesis .
  qed
  finally have small: "\<bar>real_of_int (round_half_even ((2 ^ 58 + 99) / 2 powi 6)) * 2 powi 6\<bar>
                         < 2 ^ 1024"
    by (simp only: r)
  have "to_double (2 ^ 58 + 99)
          = Fin (real_of_int (round_half_even ((2 ^ 58 + 99) / 2 powi 6)) * 2 powi 6)"
    by (rule to_double_finite [OF _ _ small]) (use E in simp_all)
  then show ?thesis by (simp only: r) simp
qed

subsection \<open>Backoff delay\<close>

lemma scenario_numbers:
  "baseDelayMs (as_numbers scenario_config) = Fin (real_of_int 100)"
  "maxDelayMs (as_numbers scenario_config) = Fin (real_of_int 800)"
  by (simp_all add: as_numbers_def scenario_config_def)

lemma default_numbers:
  "baseDelayMs (as_numbers default_config) = Fin (real_of_int 250)"
  "maxDelayMs (as_numbers default_config) = Fin (real_of_int 1500)"
  by (simp_all add: as_numbers_def default_config_def)

text \<open>
  C2, as the code has it. The callback computes in doubles. Let the base and the maximum
  delay be whole numbers of milliseconds with \<open>0 \<le> base \<le> max \<le> 2 ^ 53 - 100\<close>, and
  let the attempt number \<open>n\<close> be at least 2, and at most 1025 when the base is 0. The
  delay before attempt \<open>n\<close>, which the callback computes at the retry count \<open>n - 1\<close>, is
  \<open>min max (base * 2 ^ (n - 2))\<close> plus the jitter, and the jitter
  \<^verbatim>\<open>Math.floor(Math.random() * 100)\<close> is a whole number from 0 to 99. In the scenario
  of the spec, a base of 100 and a maximum of 800, the first two delays are 100 and 200
  plus the jitter.
\<close>

theorem retryDelay_backoff:
  "2 \<le> n \<and> baseDelayMs cfg = Fin (real_of_int b) \<and> maxDelayMs cfg = Fin (real_of_int m)
   \<and> 0 \<le> b \<and> b \<le> m \<and> m \<le> 2 ^ 53 - 100 \<and> (0 < b \<or> n \<le> 1025)
   \<and> double u \<and> 0 \<le> u \<and> u < 1 \<longrightarrow>
     (\<exists>j. Math_floor (js_times (Fin u) (Fin 100)) = Fin (real_of_int j) \<and> 0 \<le> j \<and> j < 100
          \<and> retryDelay cfg (n - 1) u = Fin (real_of_int (min m (b * 2 ^ (n - 2)) + j))
          \<and> retryDelay (as_numbers scenario_config) (2 - 1) u = Fin (real_of_int (100 + j))
          \<and> retryDelay (as_numbers scenario_config) (3 - 1) u = Fin (real_of_int (200 + j)))"
proof
  assume h: "2 \<le> n \<and> baseDelayMs cfg = Fin (real_of_int b) \<and> maxDelayMs cfg = Fin (real_of_int m)
   \<and> 0 \<le> b \<and> b \<le> m \<and> m \<le> 2 ^ 53 - 100 \<and> (0 < b \<or> n \<le> 1025)
   \<and> double u \<and> 0 \<le> u \<and> u < 1"
  then obtain j where jit: "Math_floor (js_times (Fin u) (Fin 100)) = Fin (real_of_int j)"
    and j: "0 \<le> j" "j \<le> 99"
    using jitter_range [of u] by blast
  from h have m: "\<bar>m\<bar> \<le> 2 ^ 53 - 100" by linarith
  from h have rc: "1 \<le> n - 1" and nan: "0 < b \<or> n - 1 \<le> 1024" by linarith+
  from h have "n - 1 - 1 = n - 2" by simp
  with retryDelay_exact [of cfg b m "n - 1" u j] h m rc nan jit j
  have a: "retryDelay cfg (n - 1) u = Fin (real_of_int (min m (b * 2 ^ (n - 2)) + j))"
    by simp
  have "retryDelay (as_numbers scenario_config) 1 u
          = Fin (real_of_int (min 800 (100 * 2 ^ (1 - 1)) + j))"
    by (rule retryDelay_exact [OF scenario_numbers _ _ _ _ jit j]) simp_all
  then have b: "retryDelay (as_numbers scenario_config) (2 - 1) u = Fin (real_of_int (100 + j))"
    by simp
  have "retryDelay (as_numbers scenario_config) 2 u
          = Fin (real_of_int (min 800 (100 * 2 ^ (2 - 1)) + j))"
    by (rule retryDelay_exact [OF scenario_numbers _ _ _ _ jit j]) simp_all
  then have c: "retryDelay (as_numbers scenario_config) (3 - 1) u = Fin (real_of_int (200 + j))"
    by simp
  from j have "j < 100" by simp
  with jit j(1) a b c
  show "\<exists>j. Math_floor (js_times (Fin u) (Fin 100)) = Fin (real_of_int j) \<and> 0 \<le> j \<and> j < 100
          \<and> retryDelay cfg (n - 1) u = Fin (real_of_int (min m (b * 2 ^ (n - 2)) + j))
          \<and> retryDelay (as_numbers scenario_config) (2 - 1) u = Fin (real_of_int (100 + j))
          \<and> retryDelay (as_numbers scenario_config) (3 - 1) u = Fin (real_of_int (200 + j))"
    by blast
qed

theorem retryDelay_backoff_witness:
  "(2::nat) \<le> 4 \<and> double (3 / 8)
   \<and> Math_floor (js_times (Fin (3 / 8)) (Fin 100)) = Fin 37
   \<and> retryDelay (as_numbers default_config) (4 - 1) (3 / 8) = Fin 1037
   \<and> retryDelay (as_numbers scenario_config) (2 - 1) (3 / 8) = Fin 137
   \<and> retryDelay (as_numbers scenario_config) (3 - 1) (3 / 8) = Fin 237"
proof -
  have h: "(2::nat) \<le> 4
     \<and> baseDelayMs (as_numbers default_config) = Fin (real_of_int 250)
     \<and> maxDelayMs (as_numbers default_config) = Fin (real_of_int 1500)
     \<and> (0::int) \<le> 250 \<and> (250::int) \<le> 1500 \<and> (1500::int) \<le> 2 ^ 53 - 100
     \<and> ((0::int) < 250 \<or> (4::nat) \<le> 1025)
     \<and> double (3 / 8) \<and> (0::real) \<le> 3 / 8 \<and> (3 / 8 :: real) < 1"
    using default_numbers double_3_8 by simp
  from mp [OF retryDelay_backoff [of 4 "as_numbers default_config" 250 1500 "3 / 8"] h]
  obtain j where j: "Math_floor (js_times (Fin (3 / 8)) (Fin 100)) = Fin (real_of_int j)"
    and d: "retryDelay (as_numbers default_config) (4 - 1) (3 / 8)
              = Fin (real_of_int (min 1500 (250 * 2 ^ (4 - 2)) + j))"
           "retryDelay (as_numbers scenario_config) (2 - 1) (3 / 8) = Fin (real_of_int (100 + j))"
           "retryDelay (as_numbers scenario_config) (3 - 1) (3 / 8) = Fin (real_of_int (200 + j))"
    by blast
  from j jitter_37 have "real_of_int j = real_of_int 37" by simp
  then have "j = 37" by (simp only: of_int_eq_iff)
  with d jitter_37 double_3_8 show ?thesis by simp
qed

text \<open>
  With a base and a maximum of \<open>2 ^ 53\<close> and a jitter of 99, the sum is rounded to the
  double \<open>2 ^ 53 + 100\<close>: the delay is 100 above the exponential part. With a base of 0
  and a retry count of 1025, \<^verbatim>\<open>2 ** 1024\<close> is \<^verbatim>\<open>Infinity\<close>, the product is
  \<^verbatim>\<open>NaN\<close>, and so is the delay.
\<close>

theorem retryDelay_backoff_counterexample:
  "retryDelay exact_limit_config 1 (127 / 128) = Fin (2 ^ 53 + 100)
   \<and> Math_floor (js_times (Fin (127 / 128)) (Fin 100)) = Fin 99
   \<and> retryDelay zero_base_config 1025 0 = NaN"
proof -
  have j: "Math_floor (js_times (Fin (127 / 128)) (Fin 100)) = Fin 99"
    using jitter_99 by simp
  have t: "two_to_the (int 1 - 1) = Fin 1" by (simp add: two_to_the_def)
  have p: "js_times (Fin (2 ^ 53)) (Fin 1) = Fin (2 ^ 53)"
    using to_double_2_53 by simp
  have "retryDelay exact_limit_config 1 (127 / 128)
          = js_plus (Math_min (Fin (2 ^ 53)) (js_times (Fin (2 ^ 53)) (two_to_the (int 1 - 1))))
              (Math_floor (js_times (Fin (127 / 128)) (Fin 100)))"
    by (simp only: retryDelay_def Let_def exact_limit_config_def RetryOptions.simps)
  also have "\<dots> = js_plus (Fin (2 ^ 53)) (Fin 99)"
    by (simp only: t p j Math_min.simps min.idem)
  also have "\<dots> = to_double (2 ^ 53 + 99)" by (simp only: js_plus.simps)
  also have "\<dots> = Fin (2 ^ 53 + 100)" by (rule to_double_tie)
  finally have a: "retryDelay exact_limit_config 1 (127 / 128) = Fin (2 ^ 53 + 100)" .
  have b: "retryDelay zero_base_config 1025 0 = NaN"
    by (simp add: retryDelay_def zero_base_config_def two_to_the_def)
  from a j b show ?thesis by (intro conjI)
qed

lemma low_base_numbers:
  "baseDelayMs (as_numbers low_base_config) = Fin (real_of_int 50)"
  "maxDelayMs (as_numbers low_base_config) = Fin (real_of_int 1500)"
  by (simp_all add: as_numbers_def low_base_config_def)

lemma low_base_delays:
  "retryDelay (as_numbers low_base_config) 1 (127 / 128) = Fin 149"
  "retryDelay (as_numbers low_base_config) 2 (127 / 128) = Fin 199"
  "retryDelay (as_numbers low_base_config) 2 0 = Fin 100"
proof -
  have "retryDelay (as_numbers low_base_config) 1 (127 / 128)
          = Fin (real_of_int (min 1500 (50 * 2 ^ (1 - 1)) + 99))"
    by (rule retryDelay_exact [OF low_base_numbers _ _ _ _ jitter_99]) simp_all
  then show "retryDelay (as_numbers low_base_config) 1 (127 / 128) = Fin 149" by simp
  have "retryDelay (as_numbers low_base_config) 2 (127 / 128)
          = Fin (real_of_int (min 1500 (50 * 2 ^ (2 - 1)) + 99))"
    by (rule retryDelay_exact [OF low_base_numbers _ _ _ _ jitter_99]) simp_all
  then show "retryDelay (as_numbers low_base_config) 2 (127 / 128) = Fin 199" by simp
  have "retryDelay (as_numbers low_base_config) 2 0
          = Fin (real_of_int (min 1500 (50 * 2 ^ (2 - 1)) + 0))"
    by (rule retryDelay_exact [OF low_base_numbers _ _ _ _ jitter_0]) simp_all
  then show "retryDelay (as_numbers low_base_config) 2 0 = Fin 100" by simp
qed

lemma negative_base_delays:
  "retryDelay (as_numbers negative_base_config) 1 0 = Fin (- 100)"
  "retryDelay (as_numbers negative_base_config) 2 0 = Fin (- 200)"
proof -
  have a: "to_double (- 100) = Fin (- 100)" using to_double_int [of "- 100"] by simp
  have b: "to_double (- 200) = Fin (- 200)" using to_double_int [of "- 200"] by simp
  have z: "to_double 0 = Fin 0" by (simp add: to_double_def)
  show "retryDelay (as_numbers negative_base_config) 1 0 = Fin (- 100)"
    by (simp add: retryDelay_def as_numbers_def negative_base_config_def two_to_the_def a z)
  show "retryDelay (as_numbers negative_base_config) 2 0 = Fin (- 200)"
    by (simp add: retryDelay_def as_numbers_def negative_base_config_def two_to_the_def b z)
qed

lemma huge_delay: "retryDelay huge_config 1 (127 / 128) = Fin (2 ^ 58 + 128)"
proof -
  have j: "Math_floor (js_times (Fin (127 / 128)) (Fin 100)) = Fin 99"
    using jitter_99 by simp
  have t: "two_to_the (int 1 - 1) = Fin 1" by (simp add: two_to_the_def)
  have p: "js_times (Fin (2 ^ 58)) (Fin 1) = Fin (2 ^ 58)"
    using to_double_2_58 by simp
  have "retryDelay huge_config 1 (127 / 128)
          = js_plus (Math_min (Fin (2 ^ 58)) (js_times (Fin (2 ^ 58)) (two_to_the (int 1 - 1))))
              (Math_floor (js_times (Fin (127 / 128)) (Fin 100)))"
    by (simp only: retryDelay_def Let_def huge_config_def RetryOptions.simps)
  also have "\<dots> = js_plus (Fin (2 ^ 58)) (Fin 99)"
    by (simp only: t p j Math_min.simps min.idem)
  also have "\<dots> = to_double (2 ^ 58 + 99)" by (simp only: js_plus.simps)
  also have "\<dots> = Fin (2 ^ 58 + 128)" by (rule to_double_round_up)
  finally show ?thesis .
qed

text \<open>
  C9, as the code has it. Let the base and the maximum delay be whole numbers of
  milliseconds with \<open>0 \<le> base\<close> and \<open>\<bar>max\<bar> \<le> 2 ^ 53 - 100\<close>, and let the retry
  counts be at least 1, and at most 1024 when the base is 0. At one sample of
  \<^verbatim>\<open>Math.random()\<close> the delay does not decrease as the retry count grows; at two
  samples a later delay is less than 100 below an earlier one; and no delay exceeds the
  maximum by more than 99.
\<close>

theorem retryDelay_monotone_bounded:
  "baseDelayMs cfg = Fin (real_of_int b) \<and> maxDelayMs cfg = Fin (real_of_int m)
   \<and> 0 \<le> b \<and> \<bar>m\<bar> \<le> 2 ^ 53 - 100 \<and> 1 \<le> r1 \<and> r1 \<le> r2 \<and> (0 < b \<or> r2 \<le> 1024)
   \<and> double u \<and> 0 \<le> u \<and> u < 1 \<and> double v \<and> 0 \<le> v \<and> v < 1 \<longrightarrow>
     js_le (retryDelay cfg r1 u) (retryDelay cfg r2 u)
     \<and> (\<exists>d1 d2. retryDelay cfg r1 u = Fin d1 \<and> retryDelay cfg r2 v = Fin d2 \<and> d1 < d2 + 100)
     \<and> js_le (retryDelay cfg r2 v) (Fin (real_of_int m + 99))"
proof
  assume h: "baseDelayMs cfg = Fin (real_of_int b) \<and> maxDelayMs cfg = Fin (real_of_int m)
   \<and> 0 \<le> b \<and> \<bar>m\<bar> \<le> 2 ^ 53 - 100 \<and> 1 \<le> r1 \<and> r1 \<le> r2 \<and> (0 < b \<or> r2 \<le> 1024)
   \<and> double u \<and> 0 \<le> u \<and> u < 1 \<and> double v \<and> 0 \<le> v \<and> v < 1"
  then obtain j where ju: "Math_floor (js_times (Fin u) (Fin 100)) = Fin (real_of_int j)"
    and j: "0 \<le> j" "j \<le> 99"
    using jitter_range [of u] by blast
  from h obtain k where kv: "Math_floor (js_times (Fin v) (Fin 100)) = Fin (real_of_int k)"
    and k: "0 \<le> k" "k \<le> 99"
    using jitter_range [of v] by blast
  from h have base: "baseDelayMs cfg = Fin (real_of_int b)"
    and max: "maxDelayMs cfg = Fin (real_of_int m)"
    and b: "0 \<le> b" and m: "\<bar>m\<bar> \<le> 2 ^ 53 - 100"
    and r1: "1 \<le> r1" and r2: "1 \<le> r2" and r12: "r1 \<le> r2"
    and n1: "0 < b \<or> r1 \<le> 1024" and n2: "0 < b \<or> r2 \<le> 1024"
    by linarith+
  define e1 where "e1 = min m (b * 2 ^ (r1 - 1))"
  define e2 where "e2 = min m (b * 2 ^ (r2 - 1))"
  have d1u: "retryDelay cfg r1 u = Fin (real_of_int (e1 + j))"
    unfolding e1_def by (rule retryDelay_exact [OF base max b m r1 n1 ju j])
  have d2u: "retryDelay cfg r2 u = Fin (real_of_int (e2 + j))"
    unfolding e2_def by (rule retryDelay_exact [OF base max b m r2 n2 ju j])
  have d2v: "retryDelay cfg r2 v = Fin (real_of_int (e2 + k))"
    unfolding e2_def by (rule retryDelay_exact [OF base max b m r2 n2 kv k])
  from r12 have "(2::int) ^ (r1 - 1) \<le> 2 ^ (r2 - 1)" by (intro power_increasing) simp_all
  then have "b * 2 ^ (r1 - 1) \<le> b * 2 ^ (r2 - 1)" using b by (rule mult_left_mono)
  then have e: "e1 \<le> e2" unfolding e1_def e2_def by (rule min.mono [OF order_refl])
  have e2m: "e2 \<le> m" by (simp add: e2_def)
  from e have a: "js_le (retryDelay cfg r1 u) (retryDelay cfg r2 u)"
    by (simp add: d1u d2u)
  from e j k have "real_of_int (e1 + j) < real_of_int (e2 + k) + 100" by simp
  with d1u d2v have c: "\<exists>d1 d2. retryDelay cfg r1 u = Fin d1 \<and> retryDelay cfg r2 v = Fin d2
                          \<and> d1 < d2 + 100"
    by blast
  from e2m k have "real_of_int (e2 + k) \<le> real_of_int m + 99" by simp
  then have d: "js_le (retryDelay cfg r2 v) (Fin (real_of_int m + 99))"
    by (simp add: d2v)
  from a c d show "js_le (retryDelay cfg r1 u) (retryDelay cfg r2 u)
     \<and> (\<exists>d1 d2. retryDelay cfg r1 u = Fin d1 \<and> retryDelay cfg r2 v = Fin d2 \<and> d1 < d2 + 100)
     \<and> js_le (retryDelay cfg r2 v) (Fin (real_of_int m + 99))"
    by blast
qed

theorem retryDelay_monotone_bounded_witness:
  "double (127 / 128) \<and> double 0
   \<and> retryDelay (as_numbers low_base_config) 1 (127 / 128) = Fin 149
   \<and> retryDelay (as_numbers low_base_config) 2 (127 / 128) = Fin 199
   \<and> retryDelay (as_numbers low_base_config) 2 0 = Fin 100
   \<and> js_le (retryDelay (as_numbers low_base_config) 1 (127 / 128))
        (retryDelay (as_numbers low_base_config) 2 (127 / 128))
   \<and> js_le (retryDelay (as_numbers low_base_config) 2 0) (Fin 1599)"
proof -
  have h: "baseDelayMs (as_numbers low_base_config) = Fin (real_of_int 50)
     \<and> maxDelayMs (as_numbers low_base_config) = Fin (real_of_int 1500)
     \<and> (0::int) \<le> 50 \<and> \<bar>1500::int\<bar> \<le> 2 ^ 53 - 100 \<and> (1::nat) \<le> 1 \<and> (1::nat) \<le> 2
     \<and> ((0::int) < 50 \<or> (2::nat) \<le> 1024)
     \<and> double (127 / 128) \<and> (0::real) \<le> 127 / 128 \<and> (127 / 128 :: real) < 1
     \<and> double 0 \<and> (0::real) \<le> 0 \<and> (0::real) < 1"
    using low_base_numbers double_127_128 double_zero by simp
  from mp [OF retryDelay_monotone_bounded
                [of "as_numbers low_base_config" 50 1500 1 2 "127 / 128" 0] h]
  have "js_le (retryDelay (as_numbers low_base_config) 1 (127 / 128))
          (retryDelay (as_numbers low_base_config) 2 (127 / 128))"
    and "js_le (retryDelay (as_numbers low_base_config) 2 0) (Fin (real_of_int 1500 + 99))"
    by blast+
  then show ?thesis using low_base_delays double_127_128 double_zero by simp
qed

text \<open>
  With a base of 50, the first delay at a jitter of 99 is 149 and the second at a jitter
  of 0 is 100. With a base of -100, the delays at one sample are -100, then -200. With a
  base and a maximum of \<open>2 ^ 58\<close> and a jitter of 99, the sum is rounded to the double
  \<open>2 ^ 58 + 128\<close>, which is above the maximum and 100.
\<close>

theorem retryDelay_jitter_counterexample:
  "retryDelay (as_numbers low_base_config) 1 (127 / 128) = Fin 149
   \<and> retryDelay (as_numbers low_base_config) 2 0 = Fin 100
   \<and> \<not> js_le (retryDelay (as_numbers low_base_config) 1 (127 / 128))
          (retryDelay (as_numbers low_base_config) 2 0)
   \<and> retryDelay (as_numbers negative_base_config) 1 0 = Fin (- 100)
   \<and> retryDelay (as_numbers negative_base_config) 2 0 = Fin (- 200)
   \<and> \<not> js_le (retryDelay (as_numbers negative_base_config) 1 0)
          (retryDelay (as_numbers negative_base_config) 2 0)
   \<and> retryDelay huge_config 1 (127 / 128) = Fin (2 ^ 58 + 128)
   \<and> \<not> js_le (retryDelay huge_config 1 (127 / 128)) (Fin (2 ^ 58 + 100))"
proof -
  have a: "\<not> js_le (retryDelay (as_numbers low_base_config) 1 (127 / 128))
             (retryDelay (as_numbers low_base_config) 2 0)"
    by (simp only: low_base_delays js_le.simps; simp)
  have b: "\<not> js_le (retryDelay (as_numbers negative_base_config) 1 0)
             (retryDelay (as_numbers negative_base_config) 2 0)"
    by (simp only: negative_base_delays js_le.simps; simp)
  have c: "\<not> js_le (retryDelay huge_config 1 (127 / 128)) (Fin (2 ^ 58 + 100))"
    by (simp only: huge_delay js_le.simps; simp)
  from low_base_delays(1,3) a negative_base_delays b huge_delay c show ?thesis
    by (intro conjI)
qed

subsection \<open>Merged options\<close>

text \<open>
  C4. For every caller's options, absent, partly or fully populated, every field of the
  result of \<^verbatim>\<open>mergeOptions\<close> is the caller's value when the caller gave one, and
  otherwise the default of the process: the value of the environment variable when it is
  set, and else 6000 (timeout), 2 (retries), 250 (base delay), 1500 (maximal delay), true
  (breaker enabled), 3500 (breaker timeout), 50 (error threshold), 10000 (reset), 10000
  (rolling window), 10 (rolling buckets). With nothing given and nothing set the result
  is exactly these values.
\<close>

theorem mergeOptions_total:
  "Options.timeoutMs (mergeOptions N env opts) =
     (case Option.bind opts Options.timeoutMs of
        Some v \<Rightarrow> v
      | None \<Rightarrow> (case env ''HTTP_TIMEOUT_MS'' of Some t \<Rightarrow> N t | None \<Rightarrow> 6000))
   \<and> retries (retry (mergeOptions N env opts)) =
     (case Option.bind (Option.bind opts retry) retries of
        Some v \<Rightarrow> v
      | None \<Rightarrow> (case env ''HTTP_RETRY_COUNT'' of Some t \<Rightarrow> N t | None \<Rightarrow> 2))
   \<and> baseDelayMs (retry (mergeOptions N env opts)) =
     (case Option.bind (Option.bind opts retry) baseDelayMs of
        Some v \<Rightarrow> v
      | None \<Rightarrow> (case env ''HTTP_RETRY_BASE_DELAY_MS'' of Some t \<Rightarrow> N t | None \<Rightarrow> 250))
   \<and> maxDelayMs (retry (mergeOptions N env opts)) =
     (case Option.bind (Option.bind opts retry) maxDelayMs of
        Some v \<Rightarrow> v
      | None \<Rightarrow> (case env ''HTTP_RETRY_MAX_DELAY_MS'' of Some t \<Rightarrow> N t | None \<Rightarrow> 1500))
   \<and> enabled (breaker (mergeOptions N env opts)) =
     (case Option.bind (Option.bind opts breaker) enabled of
        Some v \<Rightarrow> v
      | None \<Rightarrow> (case env ''HTTP_BREAKER_ENABLED'' of Some t \<Rightarrow> t = ''true'' | None \<Rightarrow> True))
   \<and> BreakerOptions.timeoutMs (breaker (mergeOptions N env opts)) =
     (case Option.bind (Option.bind opts breaker) BreakerOptions.timeoutMs of
        Some v \<Rightarrow> v
      | None \<Rightarrow> (case env ''HTTP_BREAKER_TIMEOUT_MS'' of Some t \<Rightarrow> N t | None \<Rightarrow> 3500))
   \<and> BreakerOptions.errorThresholdPercentage (breaker (mergeOptions N env opts)) =
     (case Option.bind (Option.bind opts breaker) BreakerOptions.errorThresholdPercentage of
        Some v \<Rightarrow> v
      | None \<Rightarrow> (case env ''HTTP_BREAKER_ERR_PCT'' of Some t \<Rightarrow> N t | None \<Rightarrow> 50))
   \<and> resetTimeoutMs (breaker (mergeOptions N env opts)) =
     (case Option.bind (Option.bind opts breaker) resetTimeoutMs of
        Some v \<Rightarrow> v
      | None \<Rightarrow> (case env ''HTTP_BREAKER_RESET_MS'' of Some t \<Rightarrow> N t | None \<Rightarrow> 10000))
   \<and> rollingCountTimeoutMs (breaker (mergeOptions N env opts)) =
     (case Option.bind (Option.bind opts breaker) rollingCountTimeoutMs of
        Some v \<Rightarrow> v
      | None \<Rightarrow> (case env ''HTTP_BREAKER_ROLLING_MS'' of Some t \<Rightarrow> N t | None \<Rightarrow> 10000))
   \<and> BreakerOptions.rollingCountBuckets (breaker (mergeOptions N env opts)) =
     (case Option.bind (Option.bind opts breaker) BreakerOptions.rollingCountBuckets of
        Some v \<Rightarrow> v
      | None \<Rightarrow> (case env ''HTTP_BREAKER_BUCKETS'' of Some t \<Rightarrow> N t | None \<Rightarrow> 10))
   \<and> mergeOptions N Map.empty None =
     \<lparr>Options.timeoutMs = 6000,
      retry = \<lparr>retries = 2, baseDelayMs = 250, maxDelayMs = 1500\<rparr>,
      breaker = \<lparr>enabled = True, BreakerOptions.timeoutMs = 3500,
                 errorThresholdPercentage = 50, resetTimeoutMs = 10000,
                 rollingCountTimeoutMs = 10000, rollingCountBuckets = 10\<rparr>\<rparr>
   \<and> mergeOptions N Map.empty (Some partial_options) =
     \<lparr>Options.timeoutMs = 1000,
      retry = \<lparr>retries = 2, baseDelayMs = 250, maxDelayMs = 1500\<rparr>,
      breaker = \<lparr>enabled = False, BreakerOptions.timeoutMs = 3500,
                 errorThresholdPercentage = 25, resetTimeoutMs = 10000,
                 rollingCountTimeoutMs = 10000, rollingCountBuckets = 10\<rparr>\<rparr>"
  by (simp add: mergeOptions_def Let_def nullish_def env_Number_def partial_options_def
        split: option.split)

subsection \<open>Service key\<close>

text \<open>
  C8. \<^verbatim>\<open>deriveServiceKey\<close> is a function of the URL string and returns a key for every
  string: the host name when the URL constructor parses the string, \<open>default\<close> when it
  throws. Equal strings have equal keys, and two parsed URLs with different host names
  have different keys.
\<close>

theorem deriveServiceKey_total:
  "(parse url = Some u \<longrightarrow> deriveServiceKey parse url = hostname u)
   \<and> (parse url = None \<longrightarrow> deriveServiceKey parse url = ''default'')
   \<and> (url = url' \<longrightarrow> deriveServiceKey parse url = deriveServiceKey parse url')
   \<and> (parse url = Some u \<and> parse url' = Some u' \<and> hostname u \<noteq> hostname u' \<longrightarrow>
         deriveServiceKey parse url \<noteq> deriveServiceKey parse url')"
  by (simp add: deriveServiceKey_def)

theorem deriveServiceKey_total_witness:
  "sample_new_URL ''http://catalog-service:3001/products''
     = Some \<lparr>hostname = ''catalog-service'', pathname = ''/products''\<rparr>
   \<and> sample_new_URL ''http://order-service:3002/orders''
     = Some \<lparr>hostname = ''order-service'', pathname = ''/orders''\<rparr>
   \<and> sample_new_URL ''/users'' = None
   \<and> deriveServiceKey sample_new_URL ''http://catalog-service:3001/products'' = ''catalog-service''
   \<and> deriveServiceKey sample_new_URL ''http://order-service:3002/orders'' = ''order-service''
   \<and> deriveServiceKey sample_new_URL ''/users'' = ''default''"
  using deriveServiceKey_total
      [of sample_new_URL "''http://catalog-service:3001/products''"
          "\<lparr>hostname = ''catalog-service'', pathname = ''/products''\<rparr>"
          "''http://order-service:3002/orders''"
          "\<lparr>hostname = ''order-service'', pathname = ''/orders''\<rparr>"]
    deriveServiceKey_total [of sample_new_URL "''/users''" _ "''/users''"]
  by (simp add: sample_new_URL_def deriveServiceKey_def)

subsection \<open>The breaker registry\<close>

lemma getOrCreateBreaker_twice:
  "getOrCreateBreaker fresh' k opts' (snd (getOrCreateBreaker fresh k opts c))
     = getOrCreateBreaker fresh k opts c"
  by (simp add: getOrCreateBreaker_def Let_def split: option.split)

lemma getOrCreateBreaker_inv:
  "registry_inv c \<Longrightarrow> registry_inv (snd (getOrCreateBreaker fresh k opts c))"
  by (auto simp: registry_inv_def getOrCreateBreaker_def Let_def split: option.split)

lemma request_inv:
  "registry_inv c \<Longrightarrow> registry_inv (snd (request pf m url payload config opts c))"
proof -
  assume inv: "registry_inv c"
  let ?k = "deriveServiceKey (new_URL pf) url"
  let ?mo = "mergeOptions (Number pf) (process_env pf) opts"
  let ?c1 = "snd (getOrCreateBreaker (fresh_state pf) ?k ?mo c)"
  have c1: "registry_inv ?c1" using inv by (rule getOrCreateBreaker_inv)
  show ?thesis
  proof (cases "enabled (breaker ?mo)")
    case False
    then show ?thesis using inv by (simp add: request_def Let_def)
  next
    case True
    have "\<exists>b. snd (request pf m url payload config opts c) = ?c1\<lparr>breakers := (breakers ?c1)(?k \<mapsto> b)\<rparr>"
      using True by (auto simp: request_def Let_def split: prod.split)
    then obtain b where
      eq: "snd (request pf m url payload config opts c) = ?c1\<lparr>breakers := (breakers ?c1)(?k \<mapsto> b)\<rparr>"
      by blast
    show ?thesis using c1 unfolding eq registry_inv_def by auto
  qed
qed

lemma requests_inv: "registry_inv c \<Longrightarrow> registry_inv (requests pf calls c)"
  by (induction calls arbitrary: c) (simp_all add: request_inv)

lemma new_HttpClient_inv: "registry_inv (new_HttpClient N env)"
  by (simp add: registry_inv_def new_HttpClient_def)

lemma distinct_count: "distinct xs \<Longrightarrow> length (filter (\<lambda>x. x = k) xs) \<le> 1"
  by (induction xs) (auto simp: filter_empty_conv)

lemma getOrCreateBreaker_existing:
  "breakers c k = Some b \<Longrightarrow> getOrCreateBreaker fresh k opts c = (b, c)"
  by (simp add: getOrCreateBreaker_def)

lemma getOrCreateBreaker_stored:
  "breakers (snd (getOrCreateBreaker fresh k opts c)) k = Some (fst (getOrCreateBreaker fresh k opts c))"
  by (simp add: getOrCreateBreaker_def Let_def split: option.split)

lemma getOrCreateBreaker_other:
  "breakers c k = Some b \<Longrightarrow> breakers (snd (getOrCreateBreaker fresh k' opts c)) k = Some b"
  by (auto simp: getOrCreateBreaker_def Let_def split: option.split)

lemma request_keeps:
  assumes "breakers c k = Some b"
  shows "\<exists>st. breakers (snd (request pf m url payload config opts c)) k
               = Some (b\<lparr>breaker_state := st\<rparr>)"
proof -
  let ?k = "deriveServiceKey (new_URL pf) url"
  let ?mo = "mergeOptions (Number pf) (process_env pf) opts"
  let ?g = "getOrCreateBreaker (fresh_state pf) ?k ?mo c"
  show ?thesis
  proof (cases "enabled (breaker ?mo)")
    case False
    then have "snd (request pf m url payload config opts c) = c"
      by (simp add: request_def Let_def)
    with assms have "breakers (snd (request pf m url payload config opts c)) k
        = Some (b\<lparr>breaker_state := breaker_state b\<rparr>)" by simp
    then show ?thesis by blast
  next
    case True
    have "\<exists>st. snd (request pf m url payload config opts c)
            = (snd ?g)\<lparr>breakers := (breakers (snd ?g))(?k \<mapsto> (fst ?g)\<lparr>breaker_state := st\<rparr>)\<rparr>"
      using True by (auto simp: request_def Let_def split: prod.split)
    then obtain st where
      eq: "snd (request pf m url payload config opts c)
            = (snd ?g)\<lparr>breakers := (breakers (snd ?g))(?k \<mapsto> (fst ?g)\<lparr>breaker_state := st\<rparr>)\<rparr>"
      by blast
    show ?thesis
    proof (cases "?k = k")
      case True
      with assms have "?g = (b, c)" by (simp add: getOrCreateBreaker_existing)
      with eq True show ?thesis by auto
    next
      case False
      from assms have "breakers (snd ?g) k = Some b" by (rule getOrCreateBreaker_other)
      with eq False have "breakers (snd (request pf m url payload config opts c)) k
          = Some (b\<lparr>breaker_state := breaker_state b\<rparr>)" by simp
      then show ?thesis by blast
    qed
  qed
qed

lemma requests_keep:
  "breakers c k = Some b \<Longrightarrow>
   \<exists>st. breakers (requests pf calls c) k = Some (b\<lparr>breaker_state := st\<rparr>)"
proof (induction calls arbitrary: c b)
  case Nil
  then have "breakers (requests pf [] c) k = Some (b\<lparr>breaker_state := breaker_state b\<rparr>)"
    by simp
  then show ?case by blast
next
  case (Cons x xs)
  from request_keeps [OF Cons.prems] obtain st where
    "breakers (snd (request pf (call_method x) (call_url x) (call_payload x) (call_config x)
        (call_opts x) c)) k = Some (b\<lparr>breaker_state := st\<rparr>)"
    by blast
  from Cons.IH [OF this] show ?case by auto
qed

text \<open>
  C5. \<^verbatim>\<open>getOrCreateBreaker\<close> is idempotent per key: a second call with the same key,
  whatever its options, returns the breaker and the client of the first call; after any
  calls of the public API in between it still returns the object of the first call (the
  same identity). From a new client, whatever calls are made, no key has had more than
  one breaker constructed for it.
\<close>

theorem getOrCreateBreaker_idempotent:
  "getOrCreateBreaker fresh' k opts' (snd (getOrCreateBreaker fresh k opts c))
     = getOrCreateBreaker fresh k opts c
   \<and> breaker_id (fst (getOrCreateBreaker fresh' k opts'
                        (requests pf calls (snd (getOrCreateBreaker fresh k opts c)))))
     = breaker_id (fst (getOrCreateBreaker fresh k opts c))
   \<and> distinct (constructed (requests pf' calls' (new_HttpClient N env)))
   \<and> length (filter (\<lambda>x. x = k) (constructed (requests pf' calls' (new_HttpClient N env)))) \<le> 1"
proof -
  let ?g = "getOrCreateBreaker fresh k opts c"
  have "registry_inv (requests pf' calls' (new_HttpClient N env))"
    using new_HttpClient_inv by (rule requests_inv)
  then have d: "distinct (constructed (requests pf' calls' (new_HttpClient N env)))"
    by (simp add: registry_inv_def)
  have "breakers (snd ?g) k = Some (fst ?g)" by (rule getOrCreateBreaker_stored)
  from requests_keep [OF this] obtain st where
    "breakers (requests pf calls (snd ?g)) k = Some ((fst ?g)\<lparr>breaker_state := st\<rparr>)"
    by blast
  then have "fst (getOrCreateBreaker fresh' k opts' (requests pf calls (snd ?g)))
               = (fst ?g)\<lparr>breaker_state := st\<rparr>"
    by (simp add: getOrCreateBreaker_existing)
  then have i: "breaker_id (fst (getOrCreateBreaker fresh' k opts' (requests pf calls (snd ?g))))
                  = breaker_id (fst ?g)"
    by simp
  from d i distinct_count [OF d, of k] getOrCreateBreaker_twice [of fresh' k opts' fresh opts c]
  show ?thesis by blast
qed

text \<open>
  C10. The configuration of a destination's breaker is fixed by the call that constructs
  it. For a key that has a breaker, \<^verbatim>\<open>getOrCreateBreaker\<close> ignores its options: it
  returns the breaker of the map and leaves the client as it is. Through any later calls
  of the public API, with whatever options, the breaker of the key keeps its identity
  and its options (only the state that opossum keeps in it can change). For a key that
  has none, a second call with other options returns the breaker built from the options
  of the first.
\<close>

theorem breaker_options_fixed:
  "(breakers c k = Some b \<longrightarrow> getOrCreateBreaker fresh k opts c = (b, c))
   \<and> (breakers c k = Some b \<longrightarrow>
        (\<exists>st. breakers (requests pf calls c) k = Some (b\<lparr>breaker_state := st\<rparr>)))
   \<and> (breakers c k = None \<longrightarrow>
        fst (getOrCreateBreaker fresh' k opts' (snd (getOrCreateBreaker fresh k opts c)))
          = \<lparr>breaker_id = length (constructed c),
             breaker_key = k,
             timeout = BreakerOptions.timeoutMs (breaker opts),
             errorThresholdPercentage = BreakerOptions.errorThresholdPercentage (breaker opts),
             resetTimeout = resetTimeoutMs (breaker opts),
             rollingCountTimeout = rollingCountTimeoutMs (breaker opts),
             rollingCountBuckets = BreakerOptions.rollingCountBuckets (breaker opts),
             breaker_state = fresh\<rparr>)"
proof -
  have a: "breakers c k = Some b \<longrightarrow> getOrCreateBreaker fresh k opts c = (b, c)"
    by (simp add: getOrCreateBreaker_existing)
  have b: "breakers c k = Some b \<longrightarrow>
        (\<exists>st. breakers (requests pf calls c) k = Some (b\<lparr>breaker_state := st\<rparr>))"
    using requests_keep [of c k b pf calls] by blast
  have c: "breakers c k = None \<longrightarrow>
        fst (getOrCreateBreaker fresh' k opts' (snd (getOrCreateBreaker fresh k opts c)))
          = \<lparr>breaker_id = length (constructed c),
             breaker_key = k,
             timeout = BreakerOptions.timeoutMs (breaker opts),
             errorThresholdPercentage = BreakerOptions.errorThresholdPercentage (breaker opts),
             resetTimeout = resetTimeoutMs (breaker opts),
             rollingCountTimeout = rollingCountTimeoutMs (breaker opts),
             rollingCountBuckets = BreakerOptions.rollingCountBuckets (breaker opts),
             breaker_state = fresh\<rparr>"
    by (simp add: getOrCreateBreaker_def Let_def)
  from a b c show ?thesis by blast
qed

lemma first_client_breaker: "breakers first_client ''catalog-service'' = Some first_breaker"
  by (simp add: first_client_def first_breaker_def getOrCreateBreaker_def new_HttpClient_def
        mergeOptions_def Let_def nullish_def env_Number_def)

theorem breaker_options_fixed_witness:
  "breakers first_client ''catalog-service'' = Some first_breaker
   \<and> getOrCreateBreaker () ''catalog-service''
        (mergeOptions sample_Number Map.empty (Some strict_options)) first_client
       = (first_breaker, first_client)
   \<and> BreakerOptions.errorThresholdPercentage
        (breaker (mergeOptions sample_Number Map.empty (Some strict_options))) = 10
   \<and> CircuitBreaker.errorThresholdPercentage first_breaker = 50
   \<and> breakers (new_HttpClient sample_Number Map.empty :: unit HttpClient) ''catalog-service'' = None
   \<and> fst (getOrCreateBreaker () ''catalog-service''
             (mergeOptions sample_Number Map.empty (Some strict_options))
             (snd (getOrCreateBreaker () ''catalog-service''
                    (mergeOptions sample_Number Map.empty None)
                    (new_HttpClient sample_Number Map.empty))))
       = first_breaker"
proof -
  let ?strict = "mergeOptions sample_Number Map.empty (Some strict_options)"
  let ?plain = "mergeOptions sample_Number Map.empty None"
  let ?new = "new_HttpClient sample_Number Map.empty :: unit HttpClient"
  have h1: "breakers first_client ''catalog-service'' = Some first_breaker"
    by (rule first_client_breaker)
  have h2: "breakers ?new ''catalog-service'' = None"
    by (simp add: new_HttpClient_def)
  from h1 breaker_options_fixed [of first_client "''catalog-service''" first_breaker "()" ?strict]
  have a: "getOrCreateBreaker () ''catalog-service'' ?strict first_client
             = (first_breaker, first_client)"
    by blast
  from h2 breaker_options_fixed [of ?new "''catalog-service''" _ "()" ?plain _ _ "()" ?strict]
  have "fst (getOrCreateBreaker () ''catalog-service'' ?strict
               (snd (getOrCreateBreaker () ''catalog-service'' ?plain ?new)))
          = \<lparr>breaker_id = length (constructed ?new),
             breaker_key = ''catalog-service'',
             timeout = BreakerOptions.timeoutMs (breaker ?plain),
             errorThresholdPercentage = BreakerOptions.errorThresholdPercentage (breaker ?plain),
             resetTimeout = resetTimeoutMs (breaker ?plain),
             rollingCountTimeout = rollingCountTimeoutMs (breaker ?plain),
             rollingCountBuckets = BreakerOptions.rollingCountBuckets (breaker ?plain),
             breaker_state = ()\<rparr>"
    by blast
  also have "\<dots> = first_breaker"
    by (simp add: first_breaker_def new_HttpClient_def mergeOptions_def Let_def nullish_def
          env_Number_def)
  finally have b: "fst (getOrCreateBreaker () ''catalog-service'' ?strict
               (snd (getOrCreateBreaker () ''catalog-service'' ?plain ?new))) = first_breaker" .
  have c: "BreakerOptions.errorThresholdPercentage (breaker ?strict) = 10"
    by (simp add: mergeOptions_def Let_def nullish_def strict_options_def)
  have d: "CircuitBreaker.errorThresholdPercentage first_breaker = 50"
    by (simp add: first_breaker_def)
  from h1 h2 a b c d show ?thesis by blast
qed

subsection \<open>The retry loop\<close>

lemma loop_success:
  "send (Suc k) = Inr res \<Longrightarrow>
   attempt_loop cfg p send rnd m k = \<lparr>outcome = Inr res, attempts = Suc k, sleeps = []\<rparr>"
  by (cases m) simp_all




lemma loop_sleeps_length:
  "length (sleeps (attempt_loop cfg p send rnd m k)) + Suc k
     = attempts (attempt_loop cfg p send rnd m k)"
proof (induction m arbitrary: k)
  case 0
  show ?case by simp
next
  case (Suc m)
  from Suc [of "Suc k"] show ?case by (auto simp: Let_def split: sum.split)
qed



lemma shouldRetry_503: "shouldRetry p (status_error m 503)"
  by (simp add: shouldRetry_def array_includes_def error_status_def status_error_def)

lemma partial_options_disabled:
  "\<not> enabled (breaker (mergeOptions N Map.empty (Some partial_options)))"
  by (simp add: mergeOptions_def Let_def nullish_def partial_options_def)

lemma default_options_enabled:
  "enabled (breaker (mergeOptions N Map.empty None))"
  by (simp add: mergeOptions_def Let_def nullish_def)



lemma scenario_delays:
  "retryDelay (as_numbers scenario_config) (Suc 0) 0 = Fin 100"
  "retryDelay (as_numbers scenario_config) (Suc (Suc 0)) 0 = Fin 200"
proof -
  have "retryDelay (as_numbers scenario_config) (Suc 0) 0
          = Fin (real_of_int (min 800 (100 * 2 ^ (Suc 0 - 1)) + 0))"
    by (rule retryDelay_exact [OF scenario_numbers _ _ _ _ jitter_0]) simp_all
  then show "retryDelay (as_numbers scenario_config) (Suc 0) 0 = Fin 100" by simp
  have "retryDelay (as_numbers scenario_config) (Suc (Suc 0)) 0
          = Fin (real_of_int (min 800 (100 * 2 ^ (Suc (Suc 0) - 1)) + 0))"
    by (rule retryDelay_exact [OF scenario_numbers _ _ _ _ jitter_0]) simp_all
  then show "retryDelay (as_numbers scenario_config) (Suc (Suc 0)) 0 = Fin 200" by simp
qed

text \<open>
  The scenario of the spec: three exchanges, and sleeps of 100 and 200 at a jitter of 0.
\<close>

lemma scenario_trace:
  "axios_request scenario_config connectivity_or_timeout scenario_send (always 0)
     = \<lparr>outcome = Inr (ok_response 200 []), attempts = 3, sleeps = [Fin 100, Fin 200]\<rparr>"
proof -
  have n: "nat \<lceil>retries scenario_config\<rceil> = Suc (Suc 0)" by (simp add: scenario_config_def)
  show ?thesis
    unfolding axios_request_def n
    by (simp add: scenario_send_def shouldRetry_503 Let_def always_def scenario_delays)
qed

subsection \<open>The request\<close>

lemma request_disabled:
  "\<not> enabled (breaker (mergeOptions (Number pf) (process_env pf) opts)) \<Longrightarrow>
   fst (request pf m url payload config opts c) =
     map_outcome (map_sum AxiosFailure data)
       (doAxios (retry_config c) (axios pf)
          \<lparr>arg_method = m, arg_url = url, arg_data = payload, arg_config = config,
           arg_timeoutMs = Options.timeoutMs (mergeOptions (Number pf) (process_env pf) opts)\<rparr>)"
  by (simp add: request_def Let_def)


lemma doAxios_outcome:
  "outcome (doAxios cfg ax args) =
     (case outcome (axios_request cfg (isNetworkOrIdempotentRequestError ax)
                      (adapter ax (build_request args)) (Math_random ax)) of
        Inl error \<Rightarrow> Inl error
      | Inr res \<Rightarrow>
          Inr \<lparr>status = res_status res, data = res_data res, headers = res_headers res\<rparr>)"
  by (simp add: doAxios_def map_outcome_def)

lemma request_enabled:
  "enabled (breaker (mergeOptions (Number pf) (process_env pf) opts)) \<Longrightarrow>
   fst (request pf m url payload config opts c) =
     map_outcome (map_sum id data)
       (fst (fire pf (doAxios (retry_config c) (axios pf))
               (fst (getOrCreateBreaker (fresh_state pf) (deriveServiceKey (new_URL pf) url)
                       (mergeOptions (Number pf) (process_env pf) opts) c))
               \<lparr>arg_method = m, arg_url = url, arg_data = payload, arg_config = config,
                arg_timeoutMs =
                  Options.timeoutMs (mergeOptions (Number pf) (process_env pf) opts)\<rparr>))"
  by (simp add: request_def Let_def split: prod.split)

lemma sample_platform_simps:
  "Number (sample_platform p send) = sample_Number"
  "process_env (sample_platform p send) = Map.empty"
  "new_URL (sample_platform p send) = sample_new_URL"
  "isNetworkOrIdempotentRequestError (axios (sample_platform p send)) = p"
  "adapter (axios (sample_platform p send)) req = send"
  "fresh_state (sample_platform p send) = ()"
  "fire (sample_platform p send) = fire_closed"
  by (simp_all add: sample_platform_def always_def)

lemma doAxios_success:
  assumes "adapter ax (build_request args) 1 = Inr res"
  shows "doAxios cfg ax args =
     \<lparr>outcome = Inr \<lparr>status = res_status res, data = res_data res, headers = res_headers res\<rparr>,
      attempts = 1, sleeps = []\<rparr>"
proof -
  from assms have "adapter ax (build_request args) (Suc 0) = Inr res" by simp
  then show ?thesis
    using loop_success [of "adapter ax (build_request args)" 0 res]
    by (simp add: doAxios_def axios_request_def map_outcome_def)
qed

lemma sample_doAxios_success:
  "doAxios cfg (axios (sample_platform p (always (Inr res)))) args =
     \<lparr>outcome = Inr \<lparr>status = res_status res, data = res_data res, headers = res_headers res\<rparr>,
      attempts = 1, sleeps = []\<rparr>"
  by (rule doAxios_success) (simp add: sample_platform_simps always_def)











lemma open_platform_simps:
  "Number (open_platform send) = sample_Number"
  "process_env (open_platform send) = Map.empty"
  "fire (open_platform send) = fire_open"
  by (simp_all add: open_platform_def sample_platform_def)

lemma sample_platform_in_simps:
  "Number (sample_platform_in env p send) = sample_Number"
  "process_env (sample_platform_in env p send) = env"
  "isNetworkOrIdempotentRequestError (axios (sample_platform_in env p send)) = p"
  "adapter (axios (sample_platform_in env p send)) req = send"
  by (simp_all add: sample_platform_in_def sample_platform_def always_def)

text \<open>A call through an open breaker makes no exchange and fails with the breaker's error.\<close>

lemma open_breaker_rejects:
  "fst (get (open_platform scenario_send) ''http://catalog-service:3001/products'' None None
          (new_HttpClient sample_Number Map.empty))
     = \<lparr>outcome = Inl (BreakerFailure ''EOPENBREAKER''), attempts = 0, sleeps = []\<rparr>"
proof -
  let ?po = "open_platform scenario_send"
  have on: "enabled (breaker (mergeOptions (Number ?po) (process_env ?po) None))"
    by (simp add: open_platform_simps default_options_enabled)
  show ?thesis
    unfolding get_def request_enabled [OF on]
    by (simp add: open_platform_simps fire_open_def map_outcome_def)
qed




text \<open>
  C3, as the code has it. \<^verbatim>\<open>doAxios\<close> builds the triple of status, data and headers
  from the response of axios, and \<^verbatim>\<open>request\<close> returns the data of the triple alone:
  on a successful call, with the breaker disabled or enabled, the caller of
  \<^verbatim>\<open>get\<close>, \<^verbatim>\<open>post\<close>, \<^verbatim>\<open>put\<close>, \<^verbatim>\<open>patch\<close> or \<^verbatim>\<open>delete\<close> receives the
  data, and neither the status nor the headers.
\<close>

theorem request_returns_data:
  "(\<not> enabled (breaker (mergeOptions (Number pf) (process_env pf) opts))
    \<and> outcome (doAxios (retry_config c) (axios pf)
          \<lparr>arg_method = m, arg_url = url, arg_data = payload, arg_config = config,
           arg_timeoutMs = Options.timeoutMs (mergeOptions (Number pf) (process_env pf) opts)\<rparr>)
        = Inr r \<longrightarrow>
      outcome (fst (request pf m url payload config opts c)) = Inr (data r))
   \<and> (enabled (breaker (mergeOptions (Number pf) (process_env pf) opts))
    \<and> outcome (fst (fire pf (doAxios (retry_config c) (axios pf))
          (fst (getOrCreateBreaker (fresh_state pf) (deriveServiceKey (new_URL pf) url)
                  (mergeOptions (Number pf) (process_env pf) opts) c))
          \<lparr>arg_method = m, arg_url = url, arg_data = payload, arg_config = config,
           arg_timeoutMs = Options.timeoutMs (mergeOptions (Number pf) (process_env pf) opts)\<rparr>))
        = Inr r \<longrightarrow>
      outcome (fst (request pf m url payload config opts c)) = Inr (data r))
   \<and> (outcome (axios_request cfg (isNetworkOrIdempotentRequestError ax)
                 (adapter ax (build_request args)) (Math_random ax)) = Inr res \<longrightarrow>
      outcome (doAxios cfg ax args)
        = Inr \<lparr>status = res_status res, data = res_data res, headers = res_headers res\<rparr>)
   \<and> get pf url config opts c = request pf GET url None config opts c
   \<and> post pf url payload config opts c = request pf POST url payload config opts c
   \<and> put pf url payload config opts c = request pf PUT url payload config opts c
   \<and> patch pf url payload config opts c = request pf PATCH url payload config opts c
   \<and> delete pf url config opts c = request pf DELETE url None config opts c"
proof -
  have a: "\<not> enabled (breaker (mergeOptions (Number pf) (process_env pf) opts))
    \<and> outcome (doAxios (retry_config c) (axios pf)
          \<lparr>arg_method = m, arg_url = url, arg_data = payload, arg_config = config,
           arg_timeoutMs = Options.timeoutMs (mergeOptions (Number pf) (process_env pf) opts)\<rparr>)
        = Inr r \<longrightarrow>
      outcome (fst (request pf m url payload config opts c)) = Inr (data r)"
    by (simp add: request_disabled map_outcome_def)
  have b: "enabled (breaker (mergeOptions (Number pf) (process_env pf) opts))
    \<and> outcome (fst (fire pf (doAxios (retry_config c) (axios pf))
          (fst (getOrCreateBreaker (fresh_state pf) (deriveServiceKey (new_URL pf) url)
                  (mergeOptions (Number pf) (process_env pf) opts) c))
          \<lparr>arg_method = m, arg_url = url, arg_data = payload, arg_config = config,
           arg_timeoutMs = Options.timeoutMs (mergeOptions (Number pf) (process_env pf) opts)\<rparr>))
        = Inr r \<longrightarrow>
      outcome (fst (request pf m url payload config opts c)) = Inr (data r)"
    by (simp add: request_enabled map_outcome_def)
  have c: "outcome (axios_request cfg (isNetworkOrIdempotentRequestError ax)
                 (adapter ax (build_request args)) (Math_random ax)) = Inr res \<longrightarrow>
      outcome (doAxios cfg ax args)
        = Inr \<lparr>status = res_status res, data = res_data res, headers = res_headers res\<rparr>"
    by (simp add: doAxios_outcome)
  from a b c show ?thesis
    by (simp only: get_def post_def put_def patch_def delete_def simp_thms)
qed

theorem request_returns_data_witness:
  "\<not> enabled (breaker (mergeOptions sample_Number Map.empty (Some partial_options)))
   \<and> outcome (fst (request (sample_platform connectivity_or_timeout
                              (always (Inr (ok_response 200 [(''etag'', ''7'')]))))
                   GET ''http://catalog-service:3001/products'' None None (Some partial_options)
                   (new_HttpClient sample_Number Map.empty)))
       = Inr ''[]''
   \<and> enabled (breaker (mergeOptions sample_Number Map.empty None))
   \<and> outcome (fst (request (sample_platform connectivity_or_timeout
                              (always (Inr (ok_response 200 [(''etag'', ''7'')]))))
                   GET ''http://catalog-service:3001/products'' None None None
                   (new_HttpClient sample_Number Map.empty)))
       = Inr ''[]''
   \<and> outcome (doAxios default_config
                 (axios (sample_platform connectivity_or_timeout
                           (always (Inr (ok_response 200 [(''etag'', ''7'')])))))
                 \<lparr>arg_method = GET, arg_url = ''http://catalog-service:3001/products'',
                  arg_data = None, arg_config = None, arg_timeoutMs = 6000\<rparr>)
       = Inr \<lparr>status = 200, data = ''[]'', headers = [(''etag'', ''7'')]\<rparr>"
proof -
  let ?pf = "sample_platform connectivity_or_timeout
               (always (Inr (ok_response 200 [(''etag'', ''7'')])))"
  let ?url = "''http://catalog-service:3001/products''"
  let ?c = "new_HttpClient sample_Number Map.empty :: unit HttpClient"
  let ?r = "\<lparr>status = 200, data = ''[]'', headers = [(''etag'', ''7'')]\<rparr>"
  let ?args = "\<lparr>arg_method = GET, arg_url = ?url, arg_data = None :: string option,
                arg_config = None, arg_timeoutMs = 6000\<rparr>"
  have off: "\<not> enabled (breaker (mergeOptions sample_Number Map.empty (Some partial_options)))"
    by (rule partial_options_disabled)
  have on: "enabled (breaker (mergeOptions sample_Number Map.empty None))"
    by (rule default_options_enabled)
  have d: "\<And>args. outcome (doAxios (retry_config ?c) (axios ?pf) args) = Inr ?r"
    by (simp add: sample_doAxios_success ok_response_def)
  have f: "\<And>b args. outcome (fst (fire_closed (doAxios (retry_config ?c) (axios ?pf)) b args))
                     = Inr ?r"
    by (simp add: fire_closed_def map_outcome_def d)
  have l: "outcome (axios_request default_config (isNetworkOrIdempotentRequestError (axios ?pf))
                      (adapter (axios ?pf) (build_request ?args)) (Math_random (axios ?pf)))
             = Inr (ok_response 200 [(''etag'', ''7'')])"
    using loop_success [of "always (Inr (ok_response 200 [(''etag'', ''7'')]))" 0
        "ok_response 200 [(''etag'', ''7'')]"]
    by (simp add: sample_platform_simps axios_request_def always_def)
  note A = request_returns_data
      [where pf = ?pf and opts = "Some partial_options" and c = ?c and m = GET and url = ?url
         and payload = None and config = None and r = ?r
         and cfg = default_config and ax = "axios ?pf" and args = ?args
         and res = "ok_response 200 [(''etag'', ''7'')]"]
  note B = request_returns_data
      [where pf = ?pf and opts = None and c = ?c and m = GET and url = ?url
         and payload = None and config = None and r = ?r]
  have a: "outcome (fst (request ?pf GET ?url None None (Some partial_options) ?c))
             = Inr (data ?r)"
    by (rule mp [OF conjunct1 [OF A]]) (simp add: sample_platform_simps off d)
  have b: "outcome (fst (request ?pf GET ?url None None None ?c)) = Inr (data ?r)"
    by (rule mp [OF conjunct1 [OF conjunct2 [OF B]]]) (simp add: sample_platform_simps on f)
  have "outcome (doAxios default_config (axios ?pf) ?args)
          = Inr \<lparr>status = res_status (ok_response 200 [(''etag'', ''7'')]),
                 data = res_data (ok_response 200 [(''etag'', ''7'')]),
                 headers = res_headers (ok_response 200 [(''etag'', ''7'')])\<rparr>"
    by (rule mp [OF conjunct1 [OF conjunct2 [OF conjunct2 [OF A]]]]) (rule l)
  then have c: "outcome (doAxios default_config (axios ?pf) ?args) = Inr ?r"
    by (simp add: ok_response_def)
  from off on a b c show ?thesis by simp
qed

text \<open>
  Responses that differ in status and headers give the caller the same value, the data.
\<close>

theorem request_returns_data_counterexample:
  "outcome (fst (get (sample_platform connectivity_or_timeout (always (Inr (ok_response 200 []))))
                   ''http://catalog-service:3001/products'' None (Some partial_options)
                   (new_HttpClient sample_Number Map.empty)))
     = Inr ''[]''
   \<and> outcome (fst (get (sample_platform connectivity_or_timeout
                          (always (Inr (ok_response 201 [(''etag'', ''7'')]))))
                   ''http://catalog-service:3001/products'' None (Some partial_options)
                   (new_HttpClient sample_Number Map.empty)))
     = Inr ''[]''
   \<and> outcome (fst (get (sample_platform connectivity_or_timeout (always (Inr (ok_response 200 []))))
                   ''http://catalog-service:3001/products'' None None
                   (new_HttpClient sample_Number Map.empty)))
     = Inr ''[]''
   \<and> res_status (ok_response 200 []) \<noteq> res_status (ok_response 201 [(''etag'', ''7'')])
   \<and> res_headers (ok_response 200 []) \<noteq> res_headers (ok_response 201 [(''etag'', ''7'')])"
proof -
  have off: "\<And>send. \<not> enabled (breaker (mergeOptions
                (Number (sample_platform connectivity_or_timeout send))
                (process_env (sample_platform connectivity_or_timeout send)) (Some partial_options)))"
    by (simp add: sample_platform_simps partial_options_disabled)
  have on: "\<And>send. enabled (breaker (mergeOptions
                (Number (sample_platform connectivity_or_timeout send))
                (process_env (sample_platform connectivity_or_timeout send)) None))"
    by (simp add: sample_platform_simps default_options_enabled)
  show ?thesis
    by (simp add: get_def request_disabled [OF off] request_enabled [OF on]
          sample_doAxios_success map_outcome_def ok_response_def
          sample_platform_simps fire_closed_def)
qed

end
